theory Spec2Isabelle
  imports Main "HOL-Library.Multiset" "HOL-Library.Option_ord"
begin

section \<open>JavaScript values\<close>

text \<open>
  The documents handled by the workflow admin are the results of \<open>response.json()\<close>: JSON
  values. \<open>JUndefined\<close> is added for the result of reading a property that is not there.
  Numbers are restricted to integers (execution ids, epoch timestamps); strings are lists
  of code units below 256. An object is the list of its own properties in enumeration
  order, with distinct keys; inherited (prototype) members are outside the model.
\<close>

datatype jsval =
    JUndefined
  | JNull
  | JBool bool
  | JNum int
  | JStr string
  | JArr "jsval list"
  | JObj "(string \<times> jsval) list"

datatype exn = TypeError | Error string

text \<open>\<open>Boolean(v)\<close>, the test of \<open>if (v)\<close>, \<open>!v\<close> and \<open>filter(Boolean)\<close>.\<close>

fun truthy :: "jsval \<Rightarrow> bool" where
  "truthy JUndefined = False"
| "truthy JNull = False"
| "truthy (JBool b) = b"
| "truthy (JNum n) = (n \<noteq> 0)"
| "truthy (JStr s) = (s \<noteq> [])"
| "truthy (JArr xs) = True"
| "truthy (JObj kvs) = True"

text \<open>\<open>v == null\<close>: true of \<open>null\<close> and \<open>undefined\<close> only.\<close>

fun nullish :: "jsval \<Rightarrow> bool" where
  "nullish JUndefined = True"
| "nullish JNull = True"
| "nullish v = False"

text \<open>Decimal rendering of a natural number and of an integer, as \<open>String(n)\<close> gives it.\<close>

function show_nat :: "nat \<Rightarrow> string" where
  "show_nat n =
     (if n < 10 then [char_of (48 + n)]
      else show_nat (n div 10) @ [char_of (48 + n mod 10)])"
  by pat_completeness auto
termination
  by (relation "measure id") auto

definition show_int :: "int \<Rightarrow> string" where
  "show_int i = (if i < 0 then CHR ''-'' # show_nat (nat (- i)) else show_nat (nat i))"

text \<open>
  A property key that is an array index: a canonical decimal numeral (no sign, no leading
  zero).
\<close>

definition is_digit :: "char \<Rightarrow> bool" where
  "is_digit c = (48 \<le> (of_char c :: nat) \<and> (of_char c :: nat) \<le> 57)"

definition array_index :: "string \<Rightarrow> nat option" where
  "array_index s =
     (if s = [] \<or> \<not> list_all is_digit s \<or> (1 < length s \<and> hd s = CHR ''0'') then None
      else Some (foldl (\<lambda>n c. 10 * n + (of_char c - 48)) 0 s))"

text \<open>
  \<open>v[k]\<close>: reading a property. It raises a TypeError on \<open>null\<close> and \<open>undefined\<close>; on every
  other value it returns the own property, or \<open>undefined\<close> when there is none. Arrays and
  strings have \<open>length\<close> and their indices.
\<close>

fun get :: "jsval \<Rightarrow> string \<Rightarrow> exn + jsval" where
  "get JUndefined k = Inl TypeError"
| "get JNull k = Inl TypeError"
| "get (JObj kvs) k = Inr (case map_of kvs k of None \<Rightarrow> JUndefined | Some v \<Rightarrow> v)"
| "get (JArr xs) k =
     Inr (if k = ''length'' then JNum (int (length xs))
          else case array_index k of
                 None \<Rightarrow> JUndefined
               | Some i \<Rightarrow> if i < length xs then xs ! i else JUndefined)"
| "get (JStr s) k =
     Inr (if k = ''length'' then JNum (int (length s))
          else case array_index k of
                 None \<Rightarrow> JUndefined
               | Some i \<Rightarrow> if i < length s then JStr [s ! i] else JUndefined)"
| "get (JNum n) k = Inr JUndefined"
| "get (JBool b) k = Inr JUndefined"

text \<open>\<open>v?.[k]\<close>: optional chaining gives \<open>undefined\<close> where the plain read would raise.\<close>

definition opt_get :: "jsval \<Rightarrow> string \<Rightarrow> jsval" where
  "opt_get v k = (case get v k of Inl e \<Rightarrow> JUndefined | Inr x \<Rightarrow> x)"

text \<open>\<open>Object.keys(v)\<close>: the own enumerable keys; a TypeError on \<open>null\<close> and \<open>undefined\<close>.\<close>

fun object_keys :: "jsval \<Rightarrow> exn + string list" where
  "object_keys JUndefined = Inl TypeError"
| "object_keys JNull = Inl TypeError"
| "object_keys (JObj kvs) = Inr (map fst kvs)"
| "object_keys (JArr xs) = Inr (map show_nat [0..<length xs])"
| "object_keys (JStr s) = Inr (map show_nat [0..<length s])"
| "object_keys (JNum n) = Inr []"
| "object_keys (JBool b) = Inr []"

text \<open>
  \<open>for (const x of v)\<close>: the elements of an array, the characters of a string; every
  other value is not iterable and raises a TypeError.
\<close>

fun iterate :: "jsval \<Rightarrow> exn + jsval list" where
  "iterate (JArr xs) = Inr xs"
| "iterate (JStr s) = Inr (map (\<lambda>c. JStr [c]) s)"
| "iterate v = Inl TypeError"

section \<open>The custom-value extractor (n8n.server.js, extractFromExecutionData)\<close>

text \<open>
  The four nested \<open>for ... of\<close> loops, innermost first. Each returns \<open>Inr (Some v)\<close> when
  the loop executes \<open>return v\<close>, \<open>Inr None\<close> when it runs to its end, and \<open>Inl e\<close> when it
  raises.
\<close>

fun scan_items :: "string \<Rightarrow> jsval list \<Rightarrow> jsval option" where
  "scan_items key [] = None"
| "scan_items key (item # rest) =
     (if opt_get (opt_get item ''json'') key \<noteq> JUndefined
      then Some (opt_get (opt_get item ''json'') key)
      else scan_items key rest)"

fun scan_outputs :: "string \<Rightarrow> jsval list \<Rightarrow> exn + jsval option" where
  "scan_outputs key [] = Inr None"
| "scan_outputs key (output # rest) =
     (if \<not> truthy output then scan_outputs key rest
      else case iterate output of
             Inl e \<Rightarrow> Inl e
           | Inr items \<Rightarrow>
               (case scan_items key items of
                  Some v \<Rightarrow> Inr (Some v)
                | None \<Rightarrow> scan_outputs key rest))"

fun scan_runs :: "string \<Rightarrow> jsval list \<Rightarrow> exn + jsval option" where
  "scan_runs key [] = Inr None"
| "scan_runs key (run # rest) =
     (if \<not> truthy (opt_get (opt_get run ''data'') ''main'') then scan_runs key rest
      else case iterate (opt_get (opt_get run ''data'') ''main'') of
             Inl e \<Rightarrow> Inl e
           | Inr outputs \<Rightarrow>
               (case scan_outputs key outputs of
                  Inl e \<Rightarrow> Inl e
                | Inr (Some v) \<Rightarrow> Inr (Some v)
                | Inr None \<Rightarrow> scan_runs key rest))"

fun scan_nodes :: "string \<Rightarrow> jsval \<Rightarrow> string list \<Rightarrow> exn + jsval option" where
  "scan_nodes key runData [] = Inr None"
| "scan_nodes key runData (nodeName # rest) =
     (case get runData nodeName of
        Inl e \<Rightarrow> Inl e
      | Inr runs \<Rightarrow>
          (case iterate runs of
             Inl e \<Rightarrow> Inl e
           | Inr rs \<Rightarrow>
               (case scan_runs key rs of
                  Inl e \<Rightarrow> Inl e
                | Inr (Some v) \<Rightarrow> Inr (Some v)
                | Inr None \<Rightarrow> scan_nodes key runData rest)))"

text \<open>
  The body of the \<open>try\<close> block, with the \<open>return null\<close> that follows the block (reached
  when the loops end without a match). The debug \<open>console.log\<close> is not modelled.
\<close>

definition extract_try :: "jsval \<Rightarrow> string \<Rightarrow> exn + jsval" where
  "extract_try execution key =
     (if opt_get (opt_get execution ''customData'') key \<noteq> JUndefined
      then Inr (opt_get (opt_get execution ''customData'') key)
      else if opt_get (opt_get (opt_get execution ''annotation'') ''customData'') key
                \<noteq> JUndefined
      then Inr (opt_get (opt_get (opt_get execution ''annotation'') ''customData'') key)
      else let runData =
                 opt_get (opt_get (opt_get execution ''data'') ''resultData'') ''runData''
           in if \<not> truthy runData then Inr JNull
              else case object_keys runData of
                     Inl e \<Rightarrow> Inl e
                   | Inr names \<Rightarrow>
                       (case scan_nodes key runData names of
                          Inl e \<Rightarrow> Inl e
                        | Inr (Some v) \<Rightarrow> Inr v
                        | Inr None \<Rightarrow> Inr JNull))"

text \<open>The function itself: \<open>catch { return null; }\<close> around the body.\<close>

definition extractFromExecutionData :: "jsval \<Rightarrow> string \<Rightarrow> jsval" where
  "extractFromExecutionData execution key =
     (case extract_try execution key of Inl e \<Rightarrow> JNull | Inr v \<Rightarrow> v)"

subsection \<open>What the extractor is specified to return\<close>

text \<open>
  The three places the specification names, read with the accessors of the source, and
  the list of all payload values of a result map in the order "every node, every run,
  every output, every item". These follow the specification's words and are compared
  with the loops above. A result map is well formed when it is an object whose values are
  run lists, every run's \<open>data.main\<close> is a list of outputs or falsy, and every output is a
  list of items or falsy.
\<close>

fun is_array :: "jsval \<Rightarrow> bool" where
  "is_array (JArr xs) = True"
| "is_array v = False"

fun elems :: "jsval \<Rightarrow> jsval list" where
  "elems (JArr xs) = xs"
| "elems v = []"

definition payload_value :: "string \<Rightarrow> jsval \<Rightarrow> jsval" where
  "payload_value key item = opt_get (opt_get item ''json'') key"

definition run_outputs :: "jsval \<Rightarrow> jsval" where
  "run_outputs run = opt_get (opt_get run ''data'') ''main''"

definition wf_output :: "jsval \<Rightarrow> bool" where
  "wf_output out = (is_array out \<or> \<not> truthy out)"

definition wf_run :: "jsval \<Rightarrow> bool" where
  "wf_run run = ((is_array (run_outputs run) \<or> \<not> truthy (run_outputs run))
                  \<and> list_all wf_output (elems (run_outputs run)))"

definition wf_runs :: "jsval \<Rightarrow> bool" where
  "wf_runs runs = (is_array runs \<and> list_all wf_run (elems runs))"

fun wf_runData :: "jsval \<Rightarrow> bool" where
  "wf_runData (JObj kvs) = (distinct (map fst kvs) \<and> list_all (\<lambda>kv. wf_runs (snd kv)) kvs)"
| "wf_runData v = False"

definition run_payload_values :: "string \<Rightarrow> jsval \<Rightarrow> jsval list" where
  "run_payload_values key run =
     concat (map (\<lambda>out. map (payload_value key) (elems out)) (elems (run_outputs run)))"

fun all_payload_values :: "string \<Rightarrow> jsval \<Rightarrow> jsval list" where
  "all_payload_values key (JObj kvs) =
     concat (map (\<lambda>kv. concat (map (run_payload_values key) (elems (snd kv)))) kvs)"
| "all_payload_values key v = []"

definition first_defined :: "jsval list \<Rightarrow> jsval option" where
  "first_defined vs = find (\<lambda>v. v \<noteq> JUndefined) vs"

definition customData_value :: "jsval \<Rightarrow> string \<Rightarrow> jsval" where
  "customData_value execution key = opt_get (opt_get execution ''customData'') key"

definition annotation_value :: "jsval \<Rightarrow> string \<Rightarrow> jsval" where
  "annotation_value execution key =
     opt_get (opt_get (opt_get execution ''annotation'') ''customData'') key"

definition runData_of :: "jsval \<Rightarrow> jsval" where
  "runData_of execution =
     opt_get (opt_get (opt_get execution ''data'') ''resultData'') ''runData''"

text \<open>Sample execution documents.\<close>

definition doc_top :: jsval where
  "doc_top = JObj [(''id'', JNum 7),
     (''customData'', JObj [(''orderNumber'', JStr ''1001'')]),
     (''annotation'', JObj [(''customData'', JObj [(''orderNumber'', JStr ''1002'')])])]"

definition doc_annotation :: jsval where
  "doc_annotation = JObj [(''id'', JNum 8),
     (''customData'', JObj []),
     (''annotation'', JObj [(''customData'', JObj [(''orderNumber'', JStr ''1002'')])])]"

definition doc_scan :: jsval where
  "doc_scan = JObj [(''id'', JNum 9),
     (''data'', JObj [(''resultData'', JObj [(''runData'', JObj [
        (''Webhook'', JArr [JObj [(''data'', JObj [(''main'',
            JArr [JArr [JObj [(''json'', JObj [(''body'', JStr ''x'')])]]])])]]),
        (''Set'', JArr [JObj [(''startTime'', JNum 5)],
                        JObj [(''data'', JObj [(''main'',
            JArr [JNull, JArr [JObj [(''json'', JObj [(''orderNumber'', JNum 1003)])],
                               JObj [(''json'', JObj [(''orderNumber'', JNum 1004)])]]])])]]),
        (''Last'', JArr [JObj [(''data'', JObj [(''main'',
            JArr [JArr [JObj [(''json'', JObj [(''orderNumber'', JNum 1005)])]]])])]])])])])]"

definition doc_deviant :: jsval where
  "doc_deviant = JObj [(''id'', JNum 10),
     (''data'', JObj [(''resultData'', JObj [(''runData'', JObj [
        (''Webhook'', JNum 5),
        (''Set'', JArr [JObj [(''data'', JObj [(''main'',
            JArr [JArr [JObj [(''json'', JObj [(''orderNumber'', JNum 1003)])]]])])]])])])])]"

section \<open>The execution sync engine (n8n-sync.server.js)\<close>

text \<open>
  \<open>String(v)\<close>. An array is rendered as its elements joined by commas, with \<open>null\<close> and
  \<open>undefined\<close> elements rendered empty; an object as \<open>[object Object]\<close>.
\<close>

fun join_comma :: "string list \<Rightarrow> string" where
  "join_comma [] = []"
| "join_comma [s] = s"
| "join_comma (s # t # rest) = s @ '','' @ join_comma (t # rest)"

fun js_String :: "jsval \<Rightarrow> string" where
  "js_String JUndefined = ''undefined''"
| "js_String JNull = ''null''"
| "js_String (JBool b) = (if b then ''true'' else ''false'')"
| "js_String (JNum n) = show_int n"
| "js_String (JStr s) = s"
| "js_String (JArr xs) = join_comma (map (\<lambda>x. if nullish x then [] else js_String x) xs)"
| "js_String (JObj kvs) = ''[object Object]''"

text \<open>
  An item of the list endpoint's \<open>data\<close>, as the sync reads it: \<open>id\<close> and \<open>workflowId\<close> are
  numbers or strings and go through \<open>String()\<close>; \<open>status\<close> is a string; \<open>startedAt\<close>,
  \<open>stoppedAt\<close> and \<open>mode\<close> are strings, \<open>null\<close> or absent (\<open>None\<close>); \<open>exec_doc\<close> is the
  whole item, which the extractor scans for the order number.
\<close>

record execution =
  exec_id :: jsval
  exec_workflowId :: jsval
  exec_status :: string
  exec_startedAt :: "string option"
  exec_stoppedAt :: "string option"
  exec_mode :: "string option"
  exec_doc :: jsval

text \<open>\<open>new Date(s)\<close>, kept as the constructor applied to its argument.\<close>

datatype date = Date string

text \<open>A row of the ExecutionOrder table; \<open>executionId\<close> is its primary key.\<close>

record row =
  executionId :: string
  orderNumber :: "string option"
  workflowId :: string
  status :: string
  startedAt :: "date option"
  stoppedAt :: "date option"
  mode :: "string option"

text \<open>\<open>x ? new Date(x) : null\<close> on a string, \<open>null\<close> or absent value.\<close>

definition to_date :: "string option \<Rightarrow> date option" where
  "to_date x = (case x of None \<Rightarrow> None | Some s \<Rightarrow> if s = [] then None else Some (Date s))"

text \<open>
  \<open>orderNumber != null ? String(orderNumber) : null\<close> for the extractor's result.
\<close>

definition order_number_of :: "execution \<Rightarrow> string option" where
  "order_number_of exec =
     (let orderNumber = extractFromExecutionData (exec_doc exec) ''orderNumber''
      in if \<not> nullish orderNumber then Some (js_String orderNumber) else None)"

definition create_row :: "execution \<Rightarrow> row" where
  "create_row exec =
     \<lparr> executionId = js_String (exec_id exec),
       orderNumber = order_number_of exec,
       workflowId = js_String (exec_workflowId exec),
       status = exec_status exec,
       startedAt = to_date (exec_startedAt exec),
       stoppedAt = to_date (exec_stoppedAt exec),
       mode = exec_mode exec \<rparr>"

definition update_row :: "execution \<Rightarrow> row \<Rightarrow> row" where
  "update_row exec r =
     r\<lparr> orderNumber := order_number_of exec,
        status := exec_status exec,
        stoppedAt := to_date (exec_stoppedAt exec) \<rparr>"

text \<open>
  \<open>prisma.executionOrder.upsert\<close> with \<open>where: {executionId: String(exec.id)}\<close>: the row
  with that key is updated, or a new row is created when there is none.
\<close>

definition find_row :: "row list \<Rightarrow> string \<Rightarrow> row option" where
  "find_row tbl k = find (\<lambda>r. executionId r = k) tbl"

definition upsert :: "execution \<Rightarrow> row list \<Rightarrow> row list" where
  "upsert exec tbl =
     (case find_row tbl (js_String (exec_id exec)) of
        None \<Rightarrow> tbl @ [create_row exec]
      | Some old \<Rightarrow>
          map (\<lambda>r. if executionId r = js_String (exec_id exec) then update_row exec r else r)
            tbl)"

text \<open>
  \<open>upsertBatch\<close>: one upsert per item. The source starts them together under
  \<open>Promise.all\<close>; the model applies them in the order of the list.
\<close>

definition upsertBatch :: "execution list \<Rightarrow> row list \<Rightarrow> row list" where
  "upsertBatch executions tbl = foldl (\<lambda>t exec. upsert exec t) tbl executions"

text \<open>
  The classification of a page in \<open>incrementalSync\<close>: \<open>findMany\<close> with
  \<open>executionId in ids\<close>, the \<open>Map\<close> from id to status built from its result (a later pair
  of a \<open>Map\<close> constructor overrides an earlier one), and the filter for new or changed
  items.
\<close>

definition findMany_in :: "string list \<Rightarrow> row list \<Rightarrow> row list" where
  "findMany_in ids tbl = filter (\<lambda>r. executionId r \<in> set ids) tbl"

definition existingMap :: "execution list \<Rightarrow> row list \<Rightarrow> string \<Rightarrow> string option" where
  "existingMap executions tbl =
     map_of (rev (map (\<lambda>r. (executionId r, status r))
       (findMany_in (map (\<lambda>e. js_String (exec_id e)) executions) tbl)))"

definition toSync :: "execution list \<Rightarrow> row list \<Rightarrow> execution list" where
  "toSync executions tbl =
     filter (\<lambda>e. case existingMap executions tbl (js_String (exec_id e)) of
                    None \<Rightarrow> True
                  | Some existingStatus \<Rightarrow> existingStatus \<noteq> exec_status e)
       executions"

text \<open>
  A page of the list endpoint, \<open>{data, nextCursor}\<close>; either member may be absent. The
  remote source is a function from the cursor sent (the page size and \<open>includeData\<close> are
  the same in every call) to the page, or to the error \<open>getExecutions\<close> raises.
\<close>

record response =
  resp_data :: "execution list option"
  nextCursor :: "string option"

type_synonym remote = "string option \<Rightarrow> exn + response"

text \<open>\<open>response.data ?? []\<close> and \<open>!response.nextCursor\<close>.\<close>

definition data_of :: "response \<Rightarrow> execution list" where
  "data_of response = (case resp_data response of None \<Rightarrow> [] | Some xs \<Rightarrow> xs)"

definition no_cursor :: "string option \<Rightarrow> bool" where
  "no_cursor c = (case c of None \<Rightarrow> True | Some s \<Rightarrow> s = [])"

text \<open>
  The state a pass works on: the two module variables, the ExecutionOrder table, the
  cursors of the \<open>getExecutions\<close> calls made so far, and the console.
\<close>

datatype log_line =
    BackfillStarting
  | BackfillComplete nat
  | IncrementalUpdated nat
  | SyncFailed exn

record world =
  syncInProgress :: bool
  lastSyncTime :: int
  executionOrder :: "row list"
  requests :: "string option list"
  console :: "log_line list"

definition SYNC_COOLDOWN :: int where
  "SYNC_COOLDOWN = 60000"

text \<open>
  The \<open>while (true)\<close> loops. A loop that never leaves has no result (\<open>None\<close>); one that
  leaves returns its counter, or the error raised by the fetch, with the state reached.
\<close>

partial_function (option) fullBackfill_loop ::
  "remote \<Rightarrow> string option \<Rightarrow> nat \<Rightarrow> world \<Rightarrow> ((exn + nat) \<times> world) option" where
  "fullBackfill_loop remote cursor total_n w =
     (case remote cursor of
        Inl e \<Rightarrow> Some (Inl e, w\<lparr>requests := requests w @ [cursor]\<rparr>)
      | Inr response \<Rightarrow>
          if data_of response = []
          then Some (Inr total_n, w\<lparr>requests := requests w @ [cursor]\<rparr>)
          else if no_cursor (nextCursor response)
          then Some (Inr (total_n + length (data_of response)),
                 w\<lparr>requests := requests w @ [cursor],
                   executionOrder := upsertBatch (data_of response) (executionOrder w)\<rparr>)
          else fullBackfill_loop remote (nextCursor response)
                 (total_n + length (data_of response))
                 (w\<lparr>requests := requests w @ [cursor],
                    executionOrder := upsertBatch (data_of response) (executionOrder w)\<rparr>))"

definition fullBackfill :: "remote \<Rightarrow> world \<Rightarrow> ((exn + unit) \<times> world) option" where
  "fullBackfill remote w =
     (case fullBackfill_loop remote None 0 (w\<lparr>console := console w @ [BackfillStarting]\<rparr>) of
        None \<Rightarrow> None
      | Some (Inl e, w') \<Rightarrow> Some (Inl e, w')
      | Some (Inr total_n, w') \<Rightarrow>
          Some (Inr (), w'\<lparr>console := console w' @ [BackfillComplete total_n]\<rparr>))"

partial_function (option) incrementalSync_loop ::
  "remote \<Rightarrow> string option \<Rightarrow> nat \<Rightarrow> world \<Rightarrow> ((exn + nat) \<times> world) option" where
  "incrementalSync_loop remote cursor newCount w =
     (case remote cursor of
        Inl e \<Rightarrow> Some (Inl e, w\<lparr>requests := requests w @ [cursor]\<rparr>)
      | Inr response \<Rightarrow>
          if data_of response = []
          then Some (Inr newCount, w\<lparr>requests := requests w @ [cursor]\<rparr>)
          else if toSync (data_of response) (executionOrder w) = []
          then Some (Inr newCount, w\<lparr>requests := requests w @ [cursor]\<rparr>)
          else if no_cursor (nextCursor response)
          then Some (Inr (newCount + length (toSync (data_of response) (executionOrder w))),
                 w\<lparr>requests := requests w @ [cursor],
                   executionOrder :=
                     upsertBatch (toSync (data_of response) (executionOrder w))
                       (executionOrder w)\<rparr>)
          else incrementalSync_loop remote (nextCursor response)
                 (newCount + length (toSync (data_of response) (executionOrder w)))
                 (w\<lparr>requests := requests w @ [cursor],
                    executionOrder :=
                      upsertBatch (toSync (data_of response) (executionOrder w))
                        (executionOrder w)\<rparr>))"

definition incrementalSync :: "remote \<Rightarrow> world \<Rightarrow> ((exn + unit) \<times> world) option" where
  "incrementalSync remote w =
     (case incrementalSync_loop remote None 0 w of
        None \<Rightarrow> None
      | Some (Inl e, w') \<Rightarrow> Some (Inl e, w')
      | Some (Inr newCount, w') \<Rightarrow>
          Some (Inr (),
            if 0 < newCount then w'\<lparr>console := console w' @ [IncrementalUpdated newCount]\<rparr>
            else w'))"

text \<open>
  \<open>syncExecutions\<close>. \<open>now\<close> is the value of \<open>Date.now()\<close> in the cooldown test and
  \<open>now'\<close> its value in the \<open>finally\<close> block. The result is the state the call leaves, or
  \<open>None\<close> when its pass never ends.
\<close>

definition run_pass :: "remote \<Rightarrow> world \<Rightarrow> ((exn + unit) \<times> world) option" where
  "run_pass remote w =
     (if length (executionOrder w) = 0 then fullBackfill remote w
      else incrementalSync remote w)"

definition syncExecutions :: "remote \<Rightarrow> int \<Rightarrow> int \<Rightarrow> world \<Rightarrow> world option" where
  "syncExecutions remote now now' w =
     (if syncInProgress w then Some w
      else if now - lastSyncTime w < SYNC_COOLDOWN then Some w
      else case run_pass remote (w\<lparr>syncInProgress := True\<rparr>) of
             None \<Rightarrow> None
           | Some (Inl e, w') \<Rightarrow>
               Some (w'\<lparr>console := console w' @ [SyncFailed e],
                        syncInProgress := False, lastSyncTime := now'\<rparr>)
           | Some (Inr u, w') \<Rightarrow>
               Some (w'\<lparr>syncInProgress := False, lastSyncTime := now'\<rparr>))"

text \<open>
  Sample data: a cache holding execution A (success) and execution B (running), and
  list items built by \<open>sample_exec\<close>.
\<close>

definition sample_exec :: "string \<Rightarrow> string \<Rightarrow> execution" where
  "sample_exec i st =
     \<lparr> exec_id = JStr i, exec_workflowId = JNum 12, exec_status = st,
       exec_startedAt = Some ''2026-02-06T10:00:00Z'',
       exec_stoppedAt = (if st = ''running'' then None else Some ''2026-02-06T10:00:05Z''),
       exec_mode = Some ''webhook'',
       exec_doc = JObj [(''id'', JStr i), (''status'', JStr st),
                        (''customData'', JObj [(''orderNumber'', JNum 1001)])] \<rparr>"

definition sample_cache :: "row list" where
  "sample_cache = [create_row (sample_exec ''A'' ''success''),
                   create_row (sample_exec ''B'' ''running'')]"

text \<open>
  The specification's classification, in its words: an item is to-sync when its id is
  absent from the cache or its status differs from the cached status.
\<close>

definition stale :: "row list \<Rightarrow> execution \<Rightarrow> bool" where
  "stale tbl e =
     (case find_row tbl (js_String (exec_id e)) of
        None \<Rightarrow> True
      | Some r \<Rightarrow> status r \<noteq> exec_status e)"

text \<open>
  A remote source with three pages, the third of which holds an execution the cache has
  never seen, and the state of a pass that has just started on the sample cache.
\<close>

definition sample_remote :: remote where
  "sample_remote cursor =
     (if cursor = None
      then Inr \<lparr> resp_data = Some [sample_exec ''B'' ''success'', sample_exec ''C'' ''success''],
                 nextCursor = Some ''c2'' \<rparr>
      else if cursor = Some ''c2''
      then Inr \<lparr> resp_data = Some [sample_exec ''A'' ''success''], nextCursor = Some ''c3'' \<rparr>
      else Inr \<lparr> resp_data = Some [sample_exec ''Z'' ''error''], nextCursor = None \<rparr>)"

definition sample_world :: world where
  "sample_world =
     \<lparr> syncInProgress = True, lastSyncTime = 0, executionOrder = sample_cache,
       requests = [], console = [] \<rparr>"

text \<open>
  A remote source whose second request fails, one that always fails, a state in which
  no sync has run yet, and the state a failed first request leaves behind.
\<close>

definition flaky_remote :: remote where
  "flaky_remote cursor =
     (if cursor = None
      then Inr \<lparr> resp_data = Some [sample_exec ''B'' ''success'', sample_exec ''C'' ''success''],
                 nextCursor = Some ''c2'' \<rparr>
      else Inl (Error ''n8n API error 502: Bad Gateway''))"

definition failing_remote :: remote where
  "failing_remote cursor = Inl (Error ''n8n API error 500: Internal Server Error'')"

definition idle_world :: world where
  "idle_world =
     \<lparr> syncInProgress = False, lastSyncTime = 0, executionOrder = sample_cache,
       requests = [], console = [] \<rparr>"

definition failed_world :: world where
  "failed_world =
     \<lparr> syncInProgress = False, lastSyncTime = 1770000000400, executionOrder = sample_cache,
       requests = [None],
       console = [SyncFailed (Error ''n8n API error 500: Internal Server Error'')] \<rparr>"

section \<open>The table sync engine (softr.server.js, syncSoftrData)\<close>

text \<open>
  A table as the remote API describes it (with its fields), read as the sync reads it:
  members that may be absent or \<open>null\<close> are options; \<open>defaultValue\<close> and \<open>options\<close> are
  arbitrary JSON values.
\<close>

record remote_field =
  rf_id :: string
  rf_name :: string
  rf_type :: string
  rf_required :: "bool option"
  rf_readonly :: "bool option"
  rf_locked :: "bool option"
  rf_allowMultipleEntries :: "bool option"
  rf_defaultValue :: jsval
  rf_options :: jsval
  rf_createdAt :: "string option"
  rf_updatedAt :: "string option"

record remote_table =
  rt_id :: string
  rt_name :: string
  rt_description :: "string option"
  rt_primaryFieldId :: "string option"
  rt_defaultViewId :: "string option"
  rt_fields :: "remote_field list option"

text \<open>
  The rows of the SoftrTable and SoftrField tables of the migration; \<open>id\<close> is the primary
  key of each. \<open>JSON.stringify(v)\<close> is kept as the constructor applied to its argument.
  The \<open>syncedAt\<close> column is filled by the database and is not modelled.
\<close>

datatype json_text = JSON_stringify jsval

record table_row =
  tr_id :: string
  tr_name :: string
  tr_description :: "string option"
  tr_primaryFieldId :: "string option"
  tr_defaultViewId :: "string option"

record field_row =
  fr_id :: string
  fr_tableId :: string
  fr_name :: string
  fr_type :: string
  fr_required :: bool
  fr_readonly :: bool
  fr_locked :: bool
  fr_allowMultipleEntries :: bool
  fr_defaultValue :: "string option"
  fr_options :: "json_text option"
  fr_createdAt :: "date option"
  fr_updatedAt :: "date option"

record softr_db =
  softrTable :: "table_row list"
  softrField :: "field_row list"

text \<open>The \<open>data\<close> object of \<open>tx.softrTable.create\<close> and the nested \<open>fields.create\<close> list.\<close>

definition table_row_of :: "remote_table \<Rightarrow> table_row" where
  "table_row_of t =
     \<lparr> tr_id = rt_id t, tr_name = rt_name t, tr_description = rt_description t,
       tr_primaryFieldId = rt_primaryFieldId t, tr_defaultViewId = rt_defaultViewId t \<rparr>"

definition or_false :: "bool option \<Rightarrow> bool" where
  "or_false b = (case b of None \<Rightarrow> False | Some v \<Rightarrow> v)"

definition field_row_of :: "string \<Rightarrow> remote_field \<Rightarrow> field_row" where
  "field_row_of table_id f =
     \<lparr> fr_id = rf_id f, fr_tableId = table_id, fr_name = rf_name f, fr_type = rf_type f,
       fr_required = or_false (rf_required f),
       fr_readonly = or_false (rf_readonly f),
       fr_locked = or_false (rf_locked f),
       fr_allowMultipleEntries = or_false (rf_allowMultipleEntries f),
       fr_defaultValue =
         (if \<not> nullish (rf_defaultValue f) then Some (js_String (rf_defaultValue f))
          else None),
       fr_options =
         (if truthy (rf_options f) then Some (JSON_stringify (rf_options f)) else None),
       fr_createdAt = to_date (rf_createdAt f),
       fr_updatedAt = to_date (rf_updatedAt f) \<rparr>"

definition field_rows_of :: "remote_table \<Rightarrow> field_row list" where
  "field_rows_of t =
     map (field_row_of (rt_id t)) (case rt_fields t of None \<Rightarrow> [] | Some fs \<Rightarrow> fs)"

text \<open>
  Inserting a row whose primary key is already in the table fails with the database's
  unique-constraint error.
\<close>

definition unique_violation :: exn where
  "unique_violation = Error ''Unique constraint failed on the fields: (`id`)''"

fun insert_fields :: "field_row list \<Rightarrow> softr_db \<Rightarrow> exn + softr_db" where
  "insert_fields [] db = Inr db"
| "insert_fields (f # fs) db =
     (if fr_id f \<in> fr_id ` set (softrField db) then Inl unique_violation
      else insert_fields fs (db\<lparr>softrField := softrField db @ [f]\<rparr>))"

definition create_table :: "remote_table \<Rightarrow> softr_db \<Rightarrow> exn + softr_db" where
  "create_table t db =
     (if rt_id t \<in> tr_id ` set (softrTable db) then Inl unique_violation
      else insert_fields (field_rows_of t)
             (db\<lparr>softrTable := softrTable db @ [table_row_of t]\<rparr>))"

fun create_tables :: "remote_table list \<Rightarrow> softr_db \<Rightarrow> exn + softr_db" where
  "create_tables [] db = Inr db"
| "create_tables (t # ts) db =
     (case create_table t db of
        Inl e \<Rightarrow> Inl e
      | Inr db' \<Rightarrow> create_tables ts db')"

text \<open>
  The callback given to \<open>prisma.$transaction\<close>: both \<open>deleteMany\<close> calls, then one
  \<open>create\<close> per table.
\<close>

definition replace_all :: "remote_table list \<Rightarrow> softr_db \<Rightarrow> exn + softr_db" where
  "replace_all tables db =
     create_tables tables ((db\<lparr>softrField := []\<rparr>)\<lparr>softrTable := []\<rparr>)"

text \<open>
  \<open>prisma.$transaction(callback)\<close>, the store's transactional write: the callback's
  writes are committed when it returns and discarded when it throws, and the error is
  thrown on to the caller.
\<close>

definition transaction :: "(softr_db \<Rightarrow> exn + softr_db) \<Rightarrow> softr_db \<Rightarrow> (exn + unit) \<times> softr_db" where
  "transaction callback db =
     (case callback db of
        Inl e \<Rightarrow> (Inl e, db)
      | Inr db' \<Rightarrow> (Inr (), db'))"

text \<open>
  The environment and the remote API. \<open>softrFetch\<close> raises when the API key is not set,
  and otherwise gives the endpoint's answer: an error for a response that is not ok, or
  the \<open>data\<close> member of the body (\<open>None\<close> when absent or \<open>null\<close>). Of a listed table only
  the \<open>id\<close> is read.
\<close>

record env =
  SOFTR_API_KEY :: "string option"
  SOFTR_DATABASE_ID :: "string option"

record softr_api =
  tables_endpoint :: "string \<Rightarrow> exn + string list option"
  table_endpoint :: "string \<Rightarrow> string \<Rightarrow> exn + remote_table option"

definition getApiKey :: "env \<Rightarrow> exn + string" where
  "getApiKey ev =
     (case SOFTR_API_KEY ev of
        None \<Rightarrow> Inl (Error ''SOFTR_API_KEY environment variable is not set'')
      | Some key \<Rightarrow>
          if key = [] then Inl (Error ''SOFTR_API_KEY environment variable is not set'')
          else Inr key)"

definition getDatabaseId :: "env \<Rightarrow> exn + string" where
  "getDatabaseId ev =
     (case SOFTR_DATABASE_ID ev of
        None \<Rightarrow> Inl (Error ''SOFTR_DATABASE_ID environment variable is not set'')
      | Some i \<Rightarrow>
          if i = [] then Inl (Error ''SOFTR_DATABASE_ID environment variable is not set'')
          else Inr i)"

definition getTables :: "env \<Rightarrow> softr_api \<Rightarrow> string \<Rightarrow> exn + string list" where
  "getTables ev api databaseId =
     (case getApiKey ev of
        Inl e \<Rightarrow> Inl e
      | Inr key \<Rightarrow>
          (case tables_endpoint api databaseId of
             Inl e \<Rightarrow> Inl e
           | Inr d \<Rightarrow> Inr (case d of None \<Rightarrow> [] | Some ts \<Rightarrow> ts)))"

definition getTable :: "env \<Rightarrow> softr_api \<Rightarrow> string \<Rightarrow> string \<Rightarrow> exn + remote_table option" where
  "getTable ev api databaseId tableId =
     (case getApiKey ev of
        Inl e \<Rightarrow> Inl e
      | Inr key \<Rightarrow> table_endpoint api databaseId tableId)"

text \<open>
  \<open>Promise.all\<close> over the detail fetches: the list of all results when every fetch
  succeeds, an error as soon as one fails. The source starts the fetches together; the
  model reports the first failure in list order.
\<close>

fun promise_all :: "(exn + 'a) list \<Rightarrow> exn + 'a list" where
  "promise_all [] = Inr []"
| "promise_all (Inl e # rest) = Inl e"
| "promise_all (Inr v # rest) =
     (case promise_all rest of Inl e \<Rightarrow> Inl e | Inr vs \<Rightarrow> Inr (v # vs))"

text \<open>
  \<open>syncSoftrData\<close>, in two parts: everything up to \<open>detailed.filter(Boolean)\<close>, which
  only reads, and the transaction with the \<open>return\<close>.
\<close>

definition fetch_tables :: "env \<Rightarrow> softr_api \<Rightarrow> exn + remote_table list" where
  "fetch_tables ev api =
     (case getDatabaseId ev of
        Inl e \<Rightarrow> Inl e
      | Inr databaseId \<Rightarrow>
          (case getTables ev api databaseId of
             Inl e \<Rightarrow> Inl e
           | Inr tablesList \<Rightarrow>
               (case promise_all (map (getTable ev api databaseId) tablesList) of
                  Inl e \<Rightarrow> Inl e
                | Inr detailed \<Rightarrow> Inr (List.map_filter (\<lambda>d. d) detailed))))"

definition syncSoftrData :: "env \<Rightarrow> softr_api \<Rightarrow> softr_db \<Rightarrow> (exn + nat) \<times> softr_db" where
  "syncSoftrData ev api db =
     (case fetch_tables ev api of
        Inl e \<Rightarrow> (Inl e, db)
      | Inr tables \<Rightarrow>
          (case transaction (replace_all tables) db of
             (Inl e, db') \<Rightarrow> (Inl e, db')
           | (Inr u, db') \<Rightarrow> (Inr (length tables), db')))"

text \<open>
  Sample schema: three tables as the remote API returns them, a fourth answer whose field
  id clashes with a field of the first table, the cache holding the three tables, and
  remote APIs built from a list of answers to the detail fetches.
\<close>

definition sample_field :: "string \<Rightarrow> string \<Rightarrow> string \<Rightarrow> remote_field" where
  "sample_field i n ty =
     \<lparr> rf_id = i, rf_name = n, rf_type = ty, rf_required = Some True, rf_readonly = None,
       rf_locked = None, rf_allowMultipleEntries = None, rf_defaultValue = JNull,
       rf_options = JUndefined, rf_createdAt = Some ''2026-02-13T14:00:00Z'',
       rf_updatedAt = None \<rparr>"

definition sample_table :: "string \<Rightarrow> string \<Rightarrow> remote_field list \<Rightarrow> remote_table" where
  "sample_table i n fs =
     \<lparr> rt_id = i, rt_name = n, rt_description = None, rt_primaryFieldId = None,
       rt_defaultViewId = None, rt_fields = Some fs \<rparr>"

definition orders_table :: remote_table where
  "orders_table = sample_table ''t1'' ''Webattelier - orders''
     [sample_field ''f1'' ''ID'' ''NUMBER'', sample_field ''f2'' ''Customer'' ''TEXT'']"

definition lines_table :: remote_table where
  "lines_table = sample_table ''t2'' ''Webattelier - lines''
     [sample_field ''f3'' ''OrderID'' ''TEXT'']"

definition swatches_table :: remote_table where
  "swatches_table = sample_table ''t3'' ''Kleurstalen''
     [sample_field ''f4'' ''orderNumber'' ''TEXT'']"

definition clashing_table :: remote_table where
  "clashing_table = sample_table ''t3'' ''Kleurstalen''
     [sample_field ''f1'' ''orderNumber'' ''TEXT'']"

definition cached_schema :: softr_db where
  "cached_schema =
     \<lparr> softrTable = map table_row_of [orders_table, lines_table, swatches_table],
       softrField = concat (map field_rows_of [orders_table, lines_table, swatches_table]) \<rparr>"

definition empty_schema :: softr_db where
  "empty_schema = \<lparr> softrTable = [], softrField = [] \<rparr>"

definition sample_env :: env where
  "sample_env = \<lparr> SOFTR_API_KEY = Some ''key'', SOFTR_DATABASE_ID = Some ''db1'' \<rparr>"

definition detail_of :: "(string \<times> (exn + remote_table option)) list \<Rightarrow> string \<Rightarrow> string
    \<Rightarrow> exn + remote_table option" where
  "detail_of answers databaseId tableId =
     (case map_of answers tableId of
        None \<Rightarrow> Inl (Error ''Softr API error 404: not found'')
      | Some a \<Rightarrow> a)"

definition sample_api :: "(string \<times> (exn + remote_table option)) list \<Rightarrow> softr_api" where
  "sample_api answers =
     \<lparr> tables_endpoint = (\<lambda>databaseId. Inr (Some (map fst answers))),
       table_endpoint = detail_of answers \<rparr>"

definition answers_third_fails :: "(string \<times> (exn + remote_table option)) list" where
  "answers_third_fails =
     [(''t1'', Inr (Some orders_table)), (''t2'', Inr (Some lines_table)),
      (''t3'', Inl (Error ''Softr API error 500: upstream failure''))]"

definition answers_clash :: "(string \<times> (exn + remote_table option)) list" where
  "answers_clash =
     [(''t1'', Inr (Some orders_table)), (''t3'', Inr (Some clashing_table))]"

definition answers_second_empty :: "(string \<times> (exn + remote_table option)) list" where
  "answers_second_empty =
     [(''t1'', Inr (Some orders_table)), (''t2'', Inr None),
      (''t3'', Inr (Some swatches_table))]"

section \<open>The record search engine (softr.server.js)\<close>

subsection \<open>resolveFieldValue\<close>

fun is_object :: "jsval \<Rightarrow> bool" where
  "is_object (JObj kvs) = True"
| "is_object v = False"

text \<open>
  The arrow function mapped over an attachment list:
  \<open>{url: att.url, filename: att.filename || "Download"}\<close>. Reading \<open>att.url\<close> raises
  when \<open>att\<close> is \<open>null\<close> or \<open>undefined\<close>.
\<close>

definition attachment_entry :: "jsval \<Rightarrow> exn + jsval" where
  "attachment_entry att =
     (case get att ''url'' of
        Inl e \<Rightarrow> Inl e
      | Inr url \<Rightarrow>
          (case get att ''filename'' of
             Inl e \<Rightarrow> Inl e
           | Inr filename \<Rightarrow>
               Inr (JObj [(''url'', url),
                          (''filename'', if truthy filename then filename
                                         else JStr ''Download'')])))"

fun map_attachments :: "jsval list \<Rightarrow> exn + jsval list" where
  "map_attachments [] = Inr []"
| "map_attachments (att # rest) =
     (case attachment_entry att of
        Inl e \<Rightarrow> Inl e
      | Inr entry \<Rightarrow>
          (case map_attachments rest of
             Inl e \<Rightarrow> Inl e
           | Inr entries \<Rightarrow> Inr (entry # entries)))"

definition resolveFieldValue :: "jsval \<Rightarrow> exn + jsval" where
  "resolveFieldValue v =
     (if nullish v then Inr v
      else if is_object v \<and> \<not> nullish (opt_get v ''label'') then Inr (opt_get v ''label'')
      else if is_array v \<and> 0 < length (elems v) \<and> truthy (opt_get (opt_get v ''0'') ''url'')
      then (case map_attachments (elems v) of
              Inl e \<Rightarrow> Inl e
            | Inr entries \<Rightarrow> Inr (JArr entries))
      else Inr v)"

text \<open>
  The three kinds of value in the specification's words: an object carrying a label, a
  non-empty list of objects carrying a url, and the \<open>{url, filename}\<close> entry of an
  attachment. \<open>first_carries_url\<close> is the test the source makes instead of the second.
\<close>

definition carries_label :: "jsval \<Rightarrow> bool" where
  "carries_label v = (is_object v \<and> \<not> nullish (opt_get v ''label''))"

definition carries_url :: "jsval \<Rightarrow> bool" where
  "carries_url a = (is_object a \<and> truthy (opt_get a ''url''))"

definition attachment_list :: "jsval \<Rightarrow> bool" where
  "attachment_list v = (is_array v \<and> elems v \<noteq> [] \<and> list_all carries_url (elems v))"

definition first_carries_url :: "jsval \<Rightarrow> bool" where
  "first_carries_url v =
     (is_array v \<and> elems v \<noteq> [] \<and> truthy (opt_get (hd (elems v)) ''url''))"

definition url_and_filename :: "jsval \<Rightarrow> jsval" where
  "url_and_filename a =
     JObj [(''url'', opt_get a ''url''),
           (''filename'', if truthy (opt_get a ''filename'') then opt_get a ''filename''
                          else JStr ''Download'')]"

subsection \<open>The filter conditions of searchSoftrRecords\<close>

definition TABLE_SEARCH_FIELDS :: "(string \<times> string list) list" where
  "TABLE_SEARCH_FIELDS =
     [(''Kleurstalen'', [''orderNumber'']),
      (''Ne DistriService'', [''orderNumber'']),
      (''Webattelier - lines'', [''OrderID'']),
      (''Webattelier - orders'', [''ID''])]"

definition NUMBER_TYPES :: "string set" where
  "NUMBER_TYPES = {''NUMBER'', ''FORMULA''}"

text \<open>
  \<open>query.trim()\<close>: the white space and line terminator code units below 256 are tab,
  line feed, vertical tab, form feed, carriage return, space and no-break space.
\<close>

definition is_space :: "char \<Rightarrow> bool" where
  "is_space c = ((of_char c :: nat) \<in> {9, 10, 11, 12, 13, 32, 160})"

definition js_trim :: "string \<Rightarrow> string" where
  "js_trim s = rev (dropWhile is_space (rev (dropWhile is_space s)))"

text \<open>
  A table of the cache with its field rows, as \<open>getCachedTables\<close> returns it, and the
  body of a search request. \<open>Number(s)\<close> is a parameter of the model; its result type is
  the type variable.
\<close>

record cached_table =
  ct_id :: string
  ct_name :: string
  ct_fields :: "field_row list"

datatype 'n operand = NumberOperand 'n | StringOperand string

datatype 'n condition =
    Comparison string string "'n operand"
  | Combination string "'n condition list"

record 'n search_body =
  filter_condition :: "'n condition"
  paging_offset :: nat
  paging_limit :: nat

definition table_condition ::
  "(string \<Rightarrow> 'n) \<Rightarrow> string \<Rightarrow> string list \<Rightarrow> cached_table \<Rightarrow> 'n condition option" where
  "table_condition Number query fieldNames table =
     (let searchableFields = filter (\<lambda>f. fr_name f \<in> set fieldNames) (ct_fields table)
      in if length searchableFields = 0 then None
         else let conditions =
                    map (\<lambda>f. Comparison (fr_id f) ''IS''
                               (if fr_type f \<in> NUMBER_TYPES
                                then NumberOperand (Number (js_trim query))
                                else StringOperand (js_trim query)))
                      searchableFields
              in Some (if length conditions = 1 then hd conditions
                       else Combination ''OR'' conditions))"

text \<open>
  The search requests the function issues: none for an empty or blank query or an empty
  cache; otherwise one per table that has an entry in \<open>TABLE_SEARCH_FIELDS\<close> and at least
  one of the configured fields, with the table's id and the request body.
\<close>

definition search_requests ::
  "(string \<Rightarrow> 'n) \<Rightarrow> string \<Rightarrow> nat \<Rightarrow> cached_table list \<Rightarrow> (string \<times> 'n search_body) list" where
  "search_requests Number query limit tables =
     (if query = [] \<or> js_trim query = [] then []
      else if length tables = 0 then []
      else concat (map (\<lambda>table.
             case map_of TABLE_SEARCH_FIELDS (ct_name table) of
               None \<Rightarrow> []
             | Some fieldNames \<Rightarrow>
                 (case table_condition Number query fieldNames table of
                    None \<Rightarrow> []
                  | Some c \<Rightarrow>
                      [(ct_id table,
                        \<lparr> filter_condition = c, paging_offset = 0, paging_limit = limit \<rparr>)]))
             tables))"

text \<open>Sample raw field values: a select value, an attachment list and a mixed list.\<close>

definition select_value :: jsval where
  "select_value = JObj [(''id'', JStr ''x''), (''label'', JStr ''Blue'')]"

definition attachment_value :: jsval where
  "attachment_value = JArr [JObj [(''url'', JStr ''u1'')]]"

definition mixed_list_value :: jsval where
  "mixed_list_value = JArr [JObj [(''url'', JStr ''u1'')], JObj [(''name'', JStr ''n'')]]"

text \<open>
  Sample cache tables for the search, and a number coercion that reads decimal digit
  strings (no value, for \<open>NaN\<close>, on any other string).
\<close>

definition digits_number :: "string \<Rightarrow> int option" where
  "digits_number s =
     (if s \<noteq> [] \<and> list_all is_digit s
      then Some (foldl (\<lambda>n c. 10 * n + (int (of_char c) - 48)) 0 s)
      else None)"

definition cached_orders :: cached_table where
  "cached_orders =
     \<lparr> ct_id = ''t1'', ct_name = ''Webattelier - orders'',
       ct_fields = field_rows_of orders_table \<rparr>"

definition cached_lines :: cached_table where
  "cached_lines =
     \<lparr> ct_id = ''t2'', ct_name = ''Webattelier - lines'',
       ct_fields = field_rows_of lines_table \<rparr>"

definition cached_other :: cached_table where
  "cached_other =
     \<lparr> ct_id = ''t9'', ct_name = ''Customers'',
       ct_fields = [field_row_of ''t9'' (sample_field ''f9'' ''ID'' ''NUMBER'')] \<rparr>"

section \<open>The node timeline (app.execution-detail.jsx, loader)\<close>

text \<open>
  The execution document as the loader reads it. \<open>workflow_nodes\<close> is
  \<open>execution?.workflowData?.nodes ?? []\<close>; \<open>run_data\<close> is
  \<open>execution?.data?.resultData?.runData ?? {}\<close>, the run lists by node name. Of a run the
  loader reads \<open>startTime\<close> and \<open>executionTime\<close> (numbers, or absent), \<open>error\<close> and
  \<open>data.main\<close>: absent, or the list of output channels, each \<open>null\<close> or a list of items.
\<close>

record wf_node =
  node_name :: string
  node_type :: "string option"

record run =
  run_startTime :: "int option"
  run_executionTime :: "int option"
  run_error :: jsval
  run_main :: "jsval list option list option"

record execution_document =
  workflow_nodes :: "wf_node list"
  run_data :: "(string \<times> run list) list"

record node_summary =
  ns_name :: string
  ns_type :: "string option"
  ns_ran :: bool
  ns_startTime :: "int option"
  ns_executionTime :: "int option"
  ns_error :: jsval
  ns_output :: jsval

text \<open>\<open>type.split(".").pop()\<close>: the part of the type after its last dot.\<close>

definition last_segment :: "string \<Rightarrow> string" where
  "last_segment s = rev (takeWhile (\<lambda>c. c \<noteq> CHR ''.'') (rev s))"

text \<open>
  \<open>main.flat()\<close>: the items of the channels that are lists, in order; a \<open>null\<close> channel
  stays in the list as \<open>null\<close>.
\<close>

definition flat :: "jsval list option list \<Rightarrow> jsval list" where
  "flat main = concat (map (\<lambda>channel. case channel of None \<Rightarrow> [JNull] | Some items \<Rightarrow> items) main)"

text \<open>
  The \<open>output\<close> list of a node and the value exposed for it:
  \<open>lastRun?.data?.main?.flat()?.map((item) => item?.json)?.filter(Boolean) ?? []\<close>, then
  \<open>output.length === 1 ? output[0] : output.length > 0 ? output : null\<close>.
\<close>

definition output_items :: "run option \<Rightarrow> jsval list" where
  "output_items lastRun =
     (case lastRun of
        None \<Rightarrow> []
      | Some r \<Rightarrow>
          (case run_main r of
             None \<Rightarrow> []
           | Some main \<Rightarrow> filter truthy (map (\<lambda>item. opt_get item ''json'') (flat main))))"

definition node_output :: "run option \<Rightarrow> jsval" where
  "node_output lastRun =
     (if length (output_items lastRun) = 1 then hd (output_items lastRun)
      else if 0 < length (output_items lastRun) then JArr (output_items lastRun)
      else JNull)"

text \<open>
  \<open>runData[node.name]\<close>. \<open>runData\<close> is a plain object, so a name that is not one of its
  own keys is looked up in \<open>Object.prototype\<close>. The function members found there have a
  \<open>length\<close> (their number of parameters) and no indexed property; \<open>__proto__\<close> gives the
  prototype object, which has no \<open>length\<close>, and counts as no run list.
\<close>

definition prototype_function_length :: "string \<Rightarrow> nat option" where
  "prototype_function_length name =
     map_of [(''constructor'', 1), (''__defineGetter__'', 2), (''__defineSetter__'', 2),
             (''hasOwnProperty'', 1), (''__lookupGetter__'', 1), (''__lookupSetter__'', 1),
             (''isPrototypeOf'', 1), (''propertyIsEnumerable'', 1), (''toString'', 0),
             (''valueOf'', 0), (''toLocaleString'', 0)] name"

datatype runs_value = RunList "run list" | PrototypeFunction nat | NoRunList

definition runs_of :: "(string \<times> run list) list \<Rightarrow> wf_node \<Rightarrow> runs_value" where
  "runs_of rd node =
     (case map_of rd (node_name node) of
        Some runs \<Rightarrow> RunList runs
      | None \<Rightarrow>
          (case prototype_function_length (node_name node) of
             Some n \<Rightarrow> PrototypeFunction n
           | None \<Rightarrow> NoRunList))"

text \<open>
  The function mapped over the workflow's nodes: \<open>ran = !!runs && runs.length > 0\<close>
  and \<open>lastRun = ran ? runs[runs.length - 1] : null\<close>, which is \<open>undefined\<close> for a
  function; every later read of \<open>lastRun\<close> is by optional chaining, so \<open>undefined\<close> and
  \<open>null\<close> are one case (\<open>None\<close>).
\<close>

fun node_ran :: "runs_value \<Rightarrow> bool" where
  "node_ran (RunList runs) = (0 < length runs)"
| "node_ran (PrototypeFunction n) = (0 < n)"
| "node_ran NoRunList = False"

fun last_of :: "runs_value \<Rightarrow> run option" where
  "last_of (RunList runs) = (if 0 < length runs then Some (last runs) else None)"
| "last_of (PrototypeFunction n) = None"
| "last_of NoRunList = None"

definition last_run :: "(string \<times> run list) list \<Rightarrow> wf_node \<Rightarrow> run option" where
  "last_run rd node = last_of (runs_of rd node)"

definition summarize :: "(string \<times> run list) list \<Rightarrow> wf_node \<Rightarrow> node_summary" where
  "summarize rd node =
     \<lparr> ns_name = node_name node,
       ns_type = map_option last_segment (node_type node),
       ns_ran = node_ran (runs_of rd node),
       ns_startTime = (case last_run rd node of None \<Rightarrow> None | Some r \<Rightarrow> run_startTime r),
       ns_executionTime =
         (case last_run rd node of None \<Rightarrow> None | Some r \<Rightarrow> run_executionTime r),
       ns_error =
         (case last_run rd node of
            None \<Rightarrow> JNull
          | Some r \<Rightarrow>
              if nullish (opt_get (run_error r) ''message'') then JNull
              else opt_get (run_error r) ''message''),
       ns_output = node_output (last_run rd node) \<rparr>"

text \<open>
  The comparator \<open>(a, b) => (a.startTime ?? 0) - (b.startTime ?? 0)\<close> and
  \<open>Array.prototype.sort\<close>, which is stable: with a consistent comparator its result is
  the stable sort of the list, written here as an insertion sort.
\<close>

definition start_or_zero :: "node_summary \<Rightarrow> int" where
  "start_or_zero a = (case ns_startTime a of None \<Rightarrow> 0 | Some t \<Rightarrow> t)"

definition by_start :: "node_summary \<Rightarrow> node_summary \<Rightarrow> int" where
  "by_start a b = start_or_zero a - start_or_zero b"

fun insert_sorted :: "('a \<Rightarrow> 'a \<Rightarrow> int) \<Rightarrow> 'a \<Rightarrow> 'a list \<Rightarrow> 'a list" where
  "insert_sorted cmp x [] = [x]"
| "insert_sorted cmp x (y # ys) =
     (if cmp x y \<le> 0 then x # y # ys else y # insert_sorted cmp x ys)"

fun js_sort :: "('a \<Rightarrow> 'a \<Rightarrow> int) \<Rightarrow> 'a list \<Rightarrow> 'a list" where
  "js_sort cmp [] = []"
| "js_sort cmp (x # xs) = insert_sorted cmp x (js_sort cmp xs)"

definition node_timeline :: "execution_document \<Rightarrow> node_summary list" where
  "node_timeline doc =
     js_sort by_start (filter ns_ran (map (summarize (run_data doc)) (workflow_nodes doc)))"

text \<open>
  In the specification's words: a node ran when its run list is non-empty; the entries
  of a run's output channels in one list; the payloads of the entries that carry one
  (the \<open>json\<close> member, kept when truthy, as every payload object is).
\<close>

definition has_runs :: "(string \<times> run list) list \<Rightarrow> wf_node \<Rightarrow> bool" where
  "has_runs rd node =
     (case map_of rd (node_name node) of None \<Rightarrow> False | Some runs \<Rightarrow> runs \<noteq> [])"

definition channel_entries :: "run \<Rightarrow> jsval list" where
  "channel_entries r =
     (case run_main r of
        None \<Rightarrow> []
      | Some main \<Rightarrow>
          concat (map (\<lambda>channel. case channel of None \<Rightarrow> [] | Some items \<Rightarrow> items) main))"

definition carries_payload :: "jsval \<Rightarrow> bool" where
  "carries_payload item = truthy (opt_get item ''json'')"

definition payloads :: "run \<Rightarrow> jsval list" where
  "payloads r = map (\<lambda>item. opt_get item ''json'') (filter carries_payload (channel_entries r))"

text \<open>
  Sample documents: three nodes with start times 300, none (the node did not run) and
  100 (the last of two runs); three nodes with one, two and no payloads; and two nodes
  that ran, one without a start time and one with a negative start time; and a document
  with nodes named after members of \<open>Object.prototype\<close> that have no run list.
\<close>

definition sample_run :: "int option \<Rightarrow> jsval list option list option \<Rightarrow> run" where
  "sample_run t main =
     \<lparr> run_startTime = t, run_executionTime = Some 12, run_error = JUndefined,
       run_main = main \<rparr>"


definition single_run :: run where
  "single_run = sample_run (Some 100)
     (Some [Some [JObj [(''json'', JObj [(''orderNumber'', JNum 1001)])]]])"

definition double_run :: run where
  "double_run = sample_run (Some 200)
     (Some [None,
            Some [JObj [(''json'', JObj [(''line'', JNum 1)])], JObj [(''binary'', JObj [])]],
            Some [JObj [(''json'', JObj [(''line'', JNum 2)])]]])"

definition silent_run :: run where
  "silent_run = sample_run (Some 300) (Some [None, Some []])"

definition output_document :: execution_document where
  "output_document =
     \<lparr> workflow_nodes =
         [\<lparr> node_name = ''Silent'', node_type = Some ''n8n-nodes-base.noOp'' \<rparr>,
          \<lparr> node_name = ''Double'', node_type = Some ''n8n-nodes-base.splitOut'' \<rparr>,
          \<lparr> node_name = ''Single'', node_type = Some ''n8n-nodes-base.webhook'' \<rparr>],
       run_data =
         [(''Single'', [silent_run, single_run]),
          (''Double'', [double_run]),
          (''Silent'', [silent_run])] \<rparr>"

definition inherited_document :: execution_document where
  "inherited_document =
     \<lparr> workflow_nodes =
         [\<lparr> node_name = ''Webhook'', node_type = Some ''n8n-nodes-base.webhook'' \<rparr>,
          \<lparr> node_name = ''constructor'', node_type = Some ''n8n-nodes-base.code'' \<rparr>,
          \<lparr> node_name = ''toString'', node_type = Some ''n8n-nodes-base.code'' \<rparr>],
       run_data = [(''Webhook'', [sample_run (Some 300) None])] \<rparr>"


section \<open>Properties of the upsert\<close>

lemma find_row_None_iff: "find_row tbl k = None \<longleftrightarrow> k \<notin> executionId ` set tbl"
  by (auto simp: find_row_def find_None_iff)

lemma find_row_Some_key: "find_row tbl k = Some r \<Longrightarrow> executionId r = k \<and> r \<in> set tbl"
  unfolding find_row_def by (induction tbl) (auto split: if_splits)

lemma find_row_append:
  "find_row (xs @ ys) k = (case find_row xs k of None \<Rightarrow> find_row ys k | Some r \<Rightarrow> Some r)"
  unfolding find_row_def by (induction xs) simp_all

lemma find_row_map:
  "(\<And>r. executionId (f r) = executionId r) \<Longrightarrow>
   find_row (map f tbl) k = map_option f (find_row tbl k)"
  unfolding find_row_def by (induction tbl) simp_all

lemma executionId_update_row [simp]: "executionId (update_row e r) = executionId r"
  by (simp add: update_row_def)

lemma executionId_create_row [simp]: "executionId (create_row e) = js_String (exec_id e)"
  by (simp add: create_row_def)

lemma update_row_idem [simp]: "update_row e (update_row e r) = update_row e r"
  by (simp add: update_row_def)

lemma update_row_create [simp]: "update_row e (create_row e) = create_row e"
  by (simp add: update_row_def create_row_def)

lemma upsert_None:
  "find_row tbl (js_String (exec_id e)) = None \<Longrightarrow> upsert e tbl = tbl @ [create_row e]"
  by (simp add: upsert_def)

lemma upsert_Some:
  "find_row tbl (js_String (exec_id e)) = Some old \<Longrightarrow>
   upsert e tbl =
     map (\<lambda>r. if executionId r = js_String (exec_id e) then update_row e r else r) tbl"
  by (simp add: upsert_def)

lemma map_executionId_upsert:
  "map executionId (upsert e tbl) =
     (if js_String (exec_id e) \<in> executionId ` set tbl then map executionId tbl
      else map executionId tbl @ [js_String (exec_id e)])"
proof (cases "find_row tbl (js_String (exec_id e))")
  case None
  then show ?thesis by (simp add: upsert_None find_row_None_iff)
next
  case (Some old)
  then have "js_String (exec_id e) \<in> executionId ` set tbl"
    using find_row_None_iff [of tbl "js_String (exec_id e)"] by simp
  moreover have "map executionId
      (map (\<lambda>r. if executionId r = js_String (exec_id e) then update_row e r else r) tbl)
      = map executionId tbl"
    by (induction tbl) simp_all
  ultimately show ?thesis using Some by (simp add: upsert_Some)
qed

lemma distinct_upsert:
  "distinct (map executionId tbl) \<Longrightarrow> distinct (map executionId (upsert e tbl))"
  by (simp add: map_executionId_upsert)

lemma find_row_upsert_same:
  "find_row (upsert e tbl) (js_String (exec_id e)) =
     Some (case find_row tbl (js_String (exec_id e)) of
             None \<Rightarrow> create_row e | Some old \<Rightarrow> update_row e old)"
proof (cases "find_row tbl (js_String (exec_id e))")
  case None
  then show ?thesis by (simp add: upsert_None find_row_append) (simp add: find_row_def)
next
  case (Some old)
  have "find_row (map (\<lambda>r. if executionId r = js_String (exec_id e) then update_row e r else r) tbl)
          (js_String (exec_id e))
        = map_option (\<lambda>r. if executionId r = js_String (exec_id e) then update_row e r else r)
            (find_row tbl (js_String (exec_id e)))"
    by (rule find_row_map) simp
  with Some show ?thesis
    using find_row_Some_key [OF Some] by (simp add: upsert_Some)
qed

lemma find_row_upsert_other:
  assumes "k \<noteq> js_String (exec_id e)"
  shows "find_row (upsert e tbl) k = find_row tbl k"
proof (cases "find_row tbl (js_String (exec_id e))")
  case None
  with assms show ?thesis
    by (simp add: upsert_None find_row_append split: option.splits) (simp add: find_row_def)
next
  case (Some old)
  have "find_row (map (\<lambda>r. if executionId r = js_String (exec_id e) then update_row e r else r) tbl) k
        = map_option (\<lambda>r. if executionId r = js_String (exec_id e) then update_row e r else r)
            (find_row tbl k)"
    by (rule find_row_map) simp
  moreover have "map_option (\<lambda>r. if executionId r = js_String (exec_id e) then update_row e r else r)
            (find_row tbl k) = find_row tbl k"
    using assms by (cases "find_row tbl k") (auto dest: find_row_Some_key)
  ultimately show ?thesis using Some by (simp add: upsert_Some)
qed

lemma upsert_idem: "upsert e (upsert e tbl) = upsert e tbl"
proof (cases "find_row tbl (js_String (exec_id e))")
  case None
  then have notin: "\<forall>r \<in> set tbl. executionId r \<noteq> js_String (exec_id e)"
    by (force simp: find_row_None_iff)
  have "find_row (upsert e tbl) (js_String (exec_id e)) = Some (create_row e)"
    using None by (simp add: find_row_upsert_same)
  then have "upsert e (upsert e tbl) =
      map (\<lambda>r. if executionId r = js_String (exec_id e) then update_row e r else r)
        (tbl @ [create_row e])"
    using None by (simp add: upsert_Some upsert_None)
  also have "\<dots> = tbl @ [create_row e]"
    using notin by (simp add: map_idI)
  finally show ?thesis using None by (simp add: upsert_None)
next
  case (Some old)
  have "find_row (upsert e tbl) (js_String (exec_id e)) = Some (update_row e old)"
    using Some by (simp add: find_row_upsert_same)
  then have "upsert e (upsert e tbl) =
      map (\<lambda>r. if executionId r = js_String (exec_id e) then update_row e r else r)
        (upsert e tbl)"
    by (simp add: upsert_Some)
  also have "\<dots> = upsert e tbl"
    using Some by (simp add: upsert_Some)
  finally show ?thesis .
qed

text \<open>
  Claim C5. For every execution item applied by the upsert: when the cache has no row for
  its id, the row created carries every field of the item; when a row exists, the new row
  has the item's order number, status and stop time and keeps the old row's start time,
  workflow id, mode and key; rows of other ids are untouched; and applying the same item a
  second time changes nothing.
\<close>

theorem upsert_create_or_refresh:
  "(find_row tbl (js_String (exec_id e)) = None \<longrightarrow>
      find_row (upsert e tbl) (js_String (exec_id e)) =
        Some \<lparr> executionId = js_String (exec_id e),
               orderNumber = order_number_of e,
               workflowId = js_String (exec_workflowId e),
               status = exec_status e,
               startedAt = to_date (exec_startedAt e),
               stoppedAt = to_date (exec_stoppedAt e),
               mode = exec_mode e \<rparr>)
   \<and> (find_row tbl (js_String (exec_id e)) = Some old \<longrightarrow>
      find_row (upsert e tbl) (js_String (exec_id e)) =
        Some \<lparr> executionId = executionId old,
               orderNumber = order_number_of e,
               workflowId = workflowId old,
               status = exec_status e,
               startedAt = startedAt old,
               stoppedAt = to_date (exec_stoppedAt e),
               mode = mode old \<rparr>)
   \<and> (k \<noteq> js_String (exec_id e) \<longrightarrow> find_row (upsert e tbl) k = find_row tbl k)
   \<and> upsert e (upsert e tbl) = upsert e tbl"
proof (intro conjI impI)
  assume "find_row tbl (js_String (exec_id e)) = None"
  then show "find_row (upsert e tbl) (js_String (exec_id e)) =
        Some \<lparr> executionId = js_String (exec_id e),
               orderNumber = order_number_of e,
               workflowId = js_String (exec_workflowId e),
               status = exec_status e,
               startedAt = to_date (exec_startedAt e),
               stoppedAt = to_date (exec_stoppedAt e),
               mode = exec_mode e \<rparr>"
    by (simp add: find_row_upsert_same create_row_def)
next
  assume "find_row tbl (js_String (exec_id e)) = Some old"
  then show "find_row (upsert e tbl) (js_String (exec_id e)) =
        Some \<lparr> executionId = executionId old,
               orderNumber = order_number_of e,
               workflowId = workflowId old,
               status = exec_status e,
               startedAt = startedAt old,
               stoppedAt = to_date (exec_stoppedAt e),
               mode = mode old \<rparr>"
    by (simp add: find_row_upsert_same update_row_def)
next
  assume "k \<noteq> js_String (exec_id e)"
  then show "find_row (upsert e tbl) k = find_row tbl k"
    by (rule find_row_upsert_other)
next
  show "upsert e (upsert e tbl) = upsert e tbl"
    by (rule upsert_idem)
qed

lemma show_int_samples: "show_int 1001 = ''1001''" "show_int 12 = ''12''"
  by code_simp+

lemma order_number_sample [simp]: "order_number_of (sample_exec i st) = Some ''1001''"
  by (simp add: order_number_of_def sample_exec_def extractFromExecutionData_def
        extract_try_def opt_get_def show_int_samples)

lemma sample_cache_rows:
  "sample_cache =
     [\<lparr> executionId = ''A'', orderNumber = Some ''1001'', workflowId = ''12'',
        status = ''success'', startedAt = Some (Date ''2026-02-06T10:00:00Z''),
        stoppedAt = Some (Date ''2026-02-06T10:00:05Z''), mode = Some ''webhook'' \<rparr>,
      \<lparr> executionId = ''B'', orderNumber = Some ''1001'', workflowId = ''12'',
        status = ''running'', startedAt = Some (Date ''2026-02-06T10:00:00Z''),
        stoppedAt = None, mode = Some ''webhook'' \<rparr>]"
  by (simp add: sample_cache_def create_row_def)
     (simp add: sample_exec_def to_date_def show_int_samples)

theorem upsert_create_or_refresh_witness:
  "find_row (upsert (sample_exec ''C'' ''success'') sample_cache) ''C'' =
     Some \<lparr> executionId = ''C'', orderNumber = Some ''1001'', workflowId = ''12'',
            status = ''success'', startedAt = Some (Date ''2026-02-06T10:00:00Z''),
            stoppedAt = Some (Date ''2026-02-06T10:00:05Z''), mode = Some ''webhook'' \<rparr>
   \<and> find_row (upsert (sample_exec ''B'' ''success'') sample_cache) ''B'' =
     Some \<lparr> executionId = ''B'', orderNumber = Some ''1001'', workflowId = ''12'',
            status = ''success'', startedAt = Some (Date ''2026-02-06T10:00:00Z''),
            stoppedAt = Some (Date ''2026-02-06T10:00:05Z''), mode = Some ''webhook'' \<rparr>
   \<and> find_row (upsert (sample_exec ''B'' ''success'') sample_cache) ''A'' =
       find_row sample_cache ''A''
   \<and> upsert (sample_exec ''B'' ''success'') (upsert (sample_exec ''B'' ''success'') sample_cache)
       = upsert (sample_exec ''B'' ''success'') sample_cache"
proof -
  have idC: "js_String (exec_id (sample_exec ''C'' ''success'')) = ''C''"
   and idB: "js_String (exec_id (sample_exec ''B'' ''success'')) = ''B''"
    by (simp_all add: sample_exec_def)
  have noC: "find_row sample_cache ''C'' = None"
    by (simp add: sample_cache_rows find_row_def)
  have hasB: "find_row sample_cache ''B'' =
      Some \<lparr> executionId = ''B'', orderNumber = Some ''1001'', workflowId = ''12'',
        status = ''running'', startedAt = Some (Date ''2026-02-06T10:00:00Z''),
        stoppedAt = None, mode = Some ''webhook'' \<rparr>"
    by (simp add: sample_cache_rows find_row_def)
  have fields: "exec_status (sample_exec i ''success'') = ''success''"
      "js_String (exec_workflowId (sample_exec i ''success'')) = ''12''"
      "to_date (exec_startedAt (sample_exec i ''success'')) = Some (Date ''2026-02-06T10:00:00Z'')"
      "to_date (exec_stoppedAt (sample_exec i ''success'')) = Some (Date ''2026-02-06T10:00:05Z'')"
      "exec_mode (sample_exec i ''success'') = Some ''webhook''" for i
    by (simp_all add: sample_exec_def to_date_def show_int_samples)
  from upsert_create_or_refresh [of sample_cache "sample_exec ''C'' ''success''"] noC
  have c1: "find_row (upsert (sample_exec ''C'' ''success'') sample_cache) ''C'' =
     Some \<lparr> executionId = ''C'', orderNumber = Some ''1001'', workflowId = ''12'',
            status = ''success'', startedAt = Some (Date ''2026-02-06T10:00:00Z''),
            stoppedAt = Some (Date ''2026-02-06T10:00:05Z''), mode = Some ''webhook'' \<rparr>"
    by (simp add: idC fields)
  from upsert_create_or_refresh [of sample_cache "sample_exec ''B'' ''success''" _ "''A''"] hasB
  have c2: "find_row (upsert (sample_exec ''B'' ''success'') sample_cache) ''B'' =
     Some \<lparr> executionId = ''B'', orderNumber = Some ''1001'', workflowId = ''12'',
            status = ''success'', startedAt = Some (Date ''2026-02-06T10:00:00Z''),
            stoppedAt = Some (Date ''2026-02-06T10:00:05Z''), mode = Some ''webhook'' \<rparr>"
    and c3: "find_row (upsert (sample_exec ''B'' ''success'') sample_cache) ''A'' =
       find_row sample_cache ''A''"
    and c4: "upsert (sample_exec ''B'' ''success'') (upsert (sample_exec ''B'' ''success'') sample_cache)
       = upsert (sample_exec ''B'' ''success'') sample_cache"
    by (simp_all add: idB fields)
  from c1 c2 c3 c4 show ?thesis by simp
qed

section \<open>Properties of the incremental sync\<close>

lemma map_of_rev_distinct:
  "distinct (map fst ps) \<Longrightarrow> map_of (rev ps) = map_of ps"
proof (induction ps)
  case Nil
  show ?case by simp
next
  case (Cons p ps)
  obtain a b where p: "p = (a, b)" by (cases p)
  with Cons.prems have none: "map_of ps a = None"
    by (simp add: map_of_eq_None_iff)
  from Cons have ih: "map_of (rev ps) = map_of ps" by simp
  show ?case
  proof (rule ext)
    fix x
    show "map_of (rev (p # ps)) x = map_of (p # ps) x"
      using none
      by (cases "x = a") (simp_all add: p map_of_append map_add_def ih split: option.splits)
  qed
qed

lemma map_of_status_find:
  "map_of (map (\<lambda>r. (executionId r, status r)) rows) k
     = map_option status (find (\<lambda>r. executionId r = k) rows)"
  by (induction rows) simp_all

lemma find_filter_key:
  "P k \<Longrightarrow> find (\<lambda>r. executionId r = k) (filter (\<lambda>r. P (executionId r)) tbl)
            = find (\<lambda>r. executionId r = k) tbl"
  by (induction tbl) auto

lemma existingMap_find_row:
  assumes "distinct (map executionId tbl)" and "e \<in> set executions"
  shows "existingMap executions tbl (js_String (exec_id e))
           = map_option status (find_row tbl (js_String (exec_id e)))"
proof -
  let ?ids = "map (\<lambda>e. js_String (exec_id e)) executions"
  let ?pairs = "map (\<lambda>r. (executionId r, status r)) (findMany_in ?ids tbl)"
  have "distinct (map fst ?pairs)"
    using assms(1) by (simp add: findMany_in_def comp_def distinct_map_filter)
  then have "map_of (rev ?pairs) = map_of ?pairs"
    by (rule map_of_rev_distinct)
  moreover have "js_String (exec_id e) \<in> set ?ids"
    using assms(2) by simp
  then have "find (\<lambda>r. executionId r = js_String (exec_id e)) (findMany_in ?ids tbl)
      = find (\<lambda>r. executionId r = js_String (exec_id e)) tbl"
    unfolding findMany_in_def by (rule find_filter_key [where P = "\<lambda>k. k \<in> set ?ids"])
  ultimately show ?thesis
    by (simp add: existingMap_def map_of_status_find find_row_def)
qed

lemma toSync_stale:
  assumes "distinct (map executionId tbl)"
  shows "toSync executions tbl = filter (stale tbl) executions"
  unfolding toSync_def
proof (rule filter_cong [OF refl])
  fix e assume "e \<in> set executions"
  with assms have "existingMap executions tbl (js_String (exec_id e))
           = map_option status (find_row tbl (js_String (exec_id e)))"
    by (rule existingMap_find_row)
  then show "(case existingMap executions tbl (js_String (exec_id e)) of
               None \<Rightarrow> True | Some existingStatus \<Rightarrow> existingStatus \<noteq> exec_status e)
             = stale tbl e"
    by (simp add: stale_def split: option.splits)
qed

lemma upsertBatch_Nil: "upsertBatch [] tbl = tbl"
  by (simp add: upsertBatch_def)

lemma upsertBatch_Cons: "upsertBatch (e # es) tbl = upsertBatch es (upsert e tbl)"
  by (simp add: upsertBatch_def)

lemma distinct_upsertBatch:
  "distinct (map executionId tbl) \<Longrightarrow> distinct (map executionId (upsertBatch es tbl))"
  by (induction es arbitrary: tbl) (simp_all add: distinct_upsert upsertBatch_Nil upsertBatch_Cons)

lemma find_row_upsertBatch_other:
  "k \<notin> (\<lambda>e. js_String (exec_id e)) ` set es \<Longrightarrow>
   find_row (upsertBatch es tbl) k = find_row tbl k"
  by (induction es arbitrary: tbl)
     (simp_all add: find_row_upsert_other upsertBatch_Nil upsertBatch_Cons)

lemma find_row_upsert_present:
  assumes "find_row tbl k = Some r"
  shows "\<exists>r'. find_row (upsert e tbl) k = Some r'"
proof (cases "k = js_String (exec_id e)")
  case True
  then show ?thesis by (simp add: find_row_upsert_same)
next
  case False
  with assms show ?thesis by (simp add: find_row_upsert_other)
qed

lemma find_row_upsertBatch_present:
  "find_row tbl k = Some r \<Longrightarrow> \<exists>r'. find_row (upsertBatch es tbl) k = Some r'"
proof (induction es arbitrary: tbl r)
  case Nil
  then show ?case by (simp add: upsertBatch_Nil)
next
  case (Cons x es)
  from find_row_upsert_present [OF Cons.prems, of x]
  obtain r' where "find_row (upsert x tbl) k = Some r'" by blast
  from Cons.IH [OF this] show ?case by (simp add: upsertBatch_Cons)
qed

lemma find_row_upsertBatch_member:
  "e \<in> set es \<Longrightarrow> \<exists>r. find_row (upsertBatch es tbl) (js_String (exec_id e)) = Some r"
proof (induction es arbitrary: tbl)
  case Nil
  then show ?case by simp
next
  case (Cons x es)
  show ?case
  proof (cases "e = x")
    case True
    have "\<exists>r. find_row (upsert x tbl) (js_String (exec_id x)) = Some r"
      by (simp add: find_row_upsert_same)
    then obtain r where "find_row (upsert x tbl) (js_String (exec_id x)) = Some r" by blast
    from find_row_upsertBatch_present [OF this, of es] show ?thesis
      using True by (simp add: upsertBatch_Cons)
  next
    case False
    with Cons show ?thesis by (simp add: upsertBatch_Cons)
  qed
qed

text \<open>
  Claim C1. In an incremental sync, for every fetched page with items (the table's key
  being unique): the items the source classifies as to-sync are exactly those whose id is
  absent from the cache or whose status differs from the cached one; when there is none,
  the loop ends at once, with no upsert and no further request; otherwise exactly those
  items are upserted (each of them has a row afterwards, and the row of every other id is
  as before) and the loop goes on with the next cursor, if the page gave one. On the
  cache {A: success, B: running} and the pages [B: success, C: success], [A: success],
  B and C are upserted and the third page is never requested.
\<close>

theorem incrementalSync_page:
  assumes "distinct (map executionId (executionOrder w))"
    and "remote cursor = Inr response"
    and "data_of response \<noteq> []"
  shows "toSync (data_of response) (executionOrder w)
           = filter (stale (executionOrder w)) (data_of response)
    \<and> (filter (stale (executionOrder w)) (data_of response) = [] \<longrightarrow>
         incrementalSync_loop remote cursor n w
           = Some (Inr n, w\<lparr>requests := requests w @ [cursor]\<rparr>))
    \<and> (filter (stale (executionOrder w)) (data_of response) \<noteq> [] \<longrightarrow>
         incrementalSync_loop remote cursor n w
           = (if no_cursor (nextCursor response)
              then Some (Inr (n + length (filter (stale (executionOrder w)) (data_of response))),
                     w\<lparr>requests := requests w @ [cursor],
                       executionOrder :=
                         upsertBatch (filter (stale (executionOrder w)) (data_of response))
                           (executionOrder w)\<rparr>)
              else incrementalSync_loop remote (nextCursor response)
                     (n + length (filter (stale (executionOrder w)) (data_of response)))
                     (w\<lparr>requests := requests w @ [cursor],
                        executionOrder :=
                          upsertBatch (filter (stale (executionOrder w)) (data_of response))
                            (executionOrder w)\<rparr>)))
    \<and> (\<forall>e \<in> set (data_of response). stale (executionOrder w) e \<longrightarrow>
          (\<exists>r. find_row (upsertBatch (filter (stale (executionOrder w)) (data_of response))
                        (executionOrder w)) (js_String (exec_id e)) = Some r))
    \<and> (\<forall>k. k \<notin> (\<lambda>e. js_String (exec_id e)) `
                  set (filter (stale (executionOrder w)) (data_of response)) \<longrightarrow>
          find_row (upsertBatch (filter (stale (executionOrder w)) (data_of response))
                     (executionOrder w)) k
            = find_row (executionOrder w) k)"
proof -
  let ?page = "data_of response"
  let ?changed = "filter (stale (executionOrder w)) ?page"
  have cls: "toSync ?page (executionOrder w) = ?changed"
    using assms(1) by (rule toSync_stale)
  have halt: "incrementalSync_loop remote cursor n w
           = Some (Inr n, w\<lparr>requests := requests w @ [cursor]\<rparr>)" if "?changed = []"
    using assms(2,3) that cls
    by (subst incrementalSync_loop.simps) simp
  have cont: "incrementalSync_loop remote cursor n w
           = (if no_cursor (nextCursor response)
              then Some (Inr (n + length ?changed),
                     w\<lparr>requests := requests w @ [cursor],
                       executionOrder := upsertBatch ?changed (executionOrder w)\<rparr>)
              else incrementalSync_loop remote (nextCursor response) (n + length ?changed)
                     (w\<lparr>requests := requests w @ [cursor],
                        executionOrder := upsertBatch ?changed (executionOrder w)\<rparr>))"
    if "?changed \<noteq> []"
    using assms(2,3) that cls
    by (subst incrementalSync_loop.simps) simp
  have present: "\<exists>r. find_row (upsertBatch ?changed (executionOrder w))
                        (js_String (exec_id e)) = Some r"
    if "e \<in> set ?page" "stale (executionOrder w) e" for e
    using that by (intro find_row_upsertBatch_member) simp
  have frame: "find_row (upsertBatch ?changed (executionOrder w)) k
            = find_row (executionOrder w) k"
    if "k \<notin> (\<lambda>e. js_String (exec_id e)) ` set ?changed" for k
    using that by (rule find_row_upsertBatch_other)
  from cls halt cont present frame show ?thesis by blast
qed

lemma sample_exec_fields [simp]:
  "js_String (exec_id (sample_exec i st)) = i"
  "exec_status (sample_exec i st) = st"
  by (simp_all add: sample_exec_def)

lemma sample_cache_keys:
  "map (\<lambda>r. (executionId r, status r)) sample_cache
     = [(''A'', ''success''), (''B'', ''running'')]"
  by (simp add: sample_cache_rows)

lemma sample_first_page:
  "map (\<lambda>r. (executionId r, status r))
     (upsertBatch [sample_exec ''B'' ''success'', sample_exec ''C'' ''success''] sample_cache)
     = [(''A'', ''success''), (''B'', ''success''), (''C'', ''success'')]"
  by (simp add: upsertBatch_def upsert_def find_row_def sample_cache_def create_row_def
        update_row_def)

lemma stale_by_keys:
  "stale tbl e =
     (case map_of (map (\<lambda>r. (executionId r, status r)) tbl) (js_String (exec_id e)) of
        None \<Rightarrow> True | Some s \<Rightarrow> s \<noteq> exec_status e)"
  by (simp add: stale_def find_row_def map_of_status_find split: option.splits)

theorem incrementalSync_page_witness:
  "incrementalSync_loop sample_remote None 0 sample_world
     = Some (Inr 2,
         sample_world\<lparr>requests := [None, Some ''c2''],
           executionOrder :=
             upsertBatch [sample_exec ''B'' ''success'', sample_exec ''C'' ''success'']
               sample_cache\<rparr>)
   \<and> map (\<lambda>r. (executionId r, status r))
       (upsertBatch [sample_exec ''B'' ''success'', sample_exec ''C'' ''success''] sample_cache)
     = [(''A'', ''success''), (''B'', ''success''), (''C'', ''success'')]"
proof -
  let ?p1 = "\<lparr> resp_data = Some [sample_exec ''B'' ''success'', sample_exec ''C'' ''success''],
              nextCursor = Some ''c2'' \<rparr>"
  let ?p2 = "\<lparr> resp_data = Some [sample_exec ''A'' ''success''], nextCursor = Some ''c3'' \<rparr>"
  let ?t1 = "upsertBatch [sample_exec ''B'' ''success'', sample_exec ''C'' ''success'']
               sample_cache"
  let ?w1 = "sample_world\<lparr>requests := requests sample_world @ [None],
               executionOrder := ?t1\<rparr>"
  have d0: "distinct (map executionId (executionOrder sample_world))"
    by (simp add: sample_world_def sample_cache_rows)
  have f1: "sample_remote None = Inr ?p1" and f2: "sample_remote (Some ''c2'') = Inr ?p2"
    by (simp_all add: sample_remote_def)
  have s1: "filter (stale (executionOrder sample_world)) (data_of ?p1)
              = [sample_exec ''B'' ''success'', sample_exec ''C'' ''success'']"
    by (simp add: data_of_def sample_world_def stale_by_keys sample_cache_keys)
  have d1: "distinct (map executionId (executionOrder ?w1))"
    using d0 by (simp add: distinct_upsertBatch sample_world_def)
  have s2: "filter (stale (executionOrder ?w1)) (data_of ?p2) = []"
    by (simp add: data_of_def stale_by_keys sample_first_page)
  have n1: "data_of ?p1 \<noteq> []" and n2: "data_of ?p2 \<noteq> []"
    by (simp_all add: data_of_def)
  have eo: "executionOrder sample_world = sample_cache"
    by (simp add: sample_world_def)
  have c1: "filter (stale (executionOrder sample_world)) (data_of ?p1) \<noteq> []"
    using s1 by simp
  from incrementalSync_page [where w = sample_world and remote = sample_remote
      and cursor = None and response = ?p1 and n = 0, OF d0 f1 n1,
      THEN conjunct2, THEN conjunct2, THEN conjunct1, rule_format, OF c1]
  have step1: "incrementalSync_loop sample_remote None 0 sample_world
      = incrementalSync_loop sample_remote (Some ''c2'') 2 ?w1"
    by (simp add: s1 [unfolded eo] no_cursor_def eo numeral_2_eq_2)
  from incrementalSync_page [where w = ?w1 and remote = sample_remote
      and cursor = "Some ''c2''" and response = ?p2 and n = 2, OF d1 f2 n2,
      THEN conjunct2, THEN conjunct1, rule_format, OF s2]
  have step2: "incrementalSync_loop sample_remote (Some ''c2'') 2 ?w1
      = Some (Inr 2, ?w1\<lparr>requests := requests ?w1 @ [Some ''c2'']\<rparr>)" .
  from step1 step2 show ?thesis
    by (simp add: sample_world_def sample_first_page)
qed

section \<open>Properties of the sync entry point\<close>

lemma incrementalSync_loop_error:
  "remote cursor = Inl e \<Longrightarrow>
   incrementalSync_loop remote cursor n w = Some (Inl e, w\<lparr>requests := requests w @ [cursor]\<rparr>)"
  by (subst incrementalSync_loop.simps) simp

lemma incrementalSync_loop_next:
  "remote cursor = Inr response \<Longrightarrow> data_of response \<noteq> [] \<Longrightarrow>
   toSync (data_of response) (executionOrder w) \<noteq> [] \<Longrightarrow>
   \<not> no_cursor (nextCursor response) \<Longrightarrow>
   incrementalSync_loop remote cursor n w =
     incrementalSync_loop remote (nextCursor response)
       (n + length (toSync (data_of response) (executionOrder w)))
       (w\<lparr>requests := requests w @ [cursor],
          executionOrder :=
            upsertBatch (toSync (data_of response) (executionOrder w)) (executionOrder w)\<rparr>)"
  by (subst incrementalSync_loop.simps) simp

lemma incrementalSync_loop_keeps:
  assumes "incrementalSync_loop remote cursor n w = Some y"
  shows "\<forall>r. find_row (executionOrder w) k = Some r \<longrightarrow>
       (\<exists>r'. find_row (executionOrder (snd y)) k = Some r')"
proof (rule incrementalSync_loop.raw_induct
    [where P = "\<lambda>remote cursor n w y. \<forall>r. find_row (executionOrder w) k = Some r \<longrightarrow>
       (\<exists>r'. find_row (executionOrder (snd y)) k = Some r')", OF _ assms], goal_cases)
  case (1 loop remote cursor newCount w y)
  show ?case
  proof (intro allI impI)
    fix r assume r: "find_row (executionOrder w) k = Some r"
    show "\<exists>r'. find_row (executionOrder (snd y)) k = Some r'"
    proof (cases "remote cursor")
      case (Inl e)
      with 1(2) r show ?thesis by auto
    next
      case (Inr response)
      let ?w' = "w\<lparr>requests := requests w @ [cursor],
                   executionOrder :=
                     upsertBatch (toSync (data_of response) (executionOrder w))
                       (executionOrder w)\<rparr>"
      from find_row_upsertBatch_present [OF r]
      obtain r' where r': "find_row (executionOrder ?w') k = Some r'"
        by auto
      show ?thesis
      proof (cases "data_of response = [] \<or> toSync (data_of response) (executionOrder w) = []")
        case True
        with 1(2) Inr r show ?thesis by (auto split: if_splits)
      next
        case False
        show ?thesis
        proof (cases "no_cursor (nextCursor response)")
          case True
          with 1(2) Inr False r' show ?thesis by auto
        next
          case False
          with 1(2) Inr \<open>\<not> (data_of response = [] \<or> _)\<close>
          have "loop remote (nextCursor response)
                  (newCount + length (toSync (data_of response) (executionOrder w))) ?w'
                = Some y"
            by simp
          from 1(1) [OF this] r' show ?thesis by blast
        qed
      qed
    qed
  qed
qed

lemma fullBackfill_loop_keeps:
  assumes "fullBackfill_loop remote cursor n w = Some y"
  shows "\<forall>r. find_row (executionOrder w) k = Some r \<longrightarrow>
       (\<exists>r'. find_row (executionOrder (snd y)) k = Some r')"
proof (rule fullBackfill_loop.raw_induct
    [where P = "\<lambda>remote cursor n w y. \<forall>r. find_row (executionOrder w) k = Some r \<longrightarrow>
       (\<exists>r'. find_row (executionOrder (snd y)) k = Some r')", OF _ assms], goal_cases)
  case (1 loop remote cursor total_n w y)
  show ?case
  proof (intro allI impI)
    fix r assume r: "find_row (executionOrder w) k = Some r"
    show "\<exists>r'. find_row (executionOrder (snd y)) k = Some r'"
    proof (cases "remote cursor")
      case (Inl e)
      with 1(2) r show ?thesis by auto
    next
      case (Inr response)
      let ?w' = "w\<lparr>requests := requests w @ [cursor],
                   executionOrder := upsertBatch (data_of response) (executionOrder w)\<rparr>"
      from find_row_upsertBatch_present [OF r]
      obtain r' where r': "find_row (executionOrder ?w') k = Some r'"
        by auto
      show ?thesis
      proof (cases "data_of response = []")
        case True
        with 1(2) Inr r show ?thesis by (auto split: if_splits)
      next
        case False
        show ?thesis
        proof (cases "no_cursor (nextCursor response)")
          case True
          with 1(2) Inr False r' show ?thesis by auto
        next
          case False
          with 1(2) Inr \<open>data_of response \<noteq> []\<close>
          have "loop remote (nextCursor response) (total_n + length (data_of response)) ?w'
                = Some y"
            by simp
          from 1(1) [OF this] r' show ?thesis by blast
        qed
      qed
    qed
  qed
qed

lemma run_pass_keeps:
  assumes "run_pass remote w = Some (res, w')" and "find_row (executionOrder w) k = Some r"
  shows "\<exists>r'. find_row (executionOrder w') k = Some r'"
proof (cases "length (executionOrder w) = 0")
  case True
  with assms(2) show ?thesis by (simp add: find_row_def)
next
  case False
  with assms(1) obtain y where y: "incrementalSync_loop remote None 0 w = Some y"
    and w': "executionOrder w' = executionOrder (snd y)"
    by (auto simp: run_pass_def incrementalSync_def split: option.splits sum.splits if_splits)
  from incrementalSync_loop_keeps [OF y] assms(2) w' show ?thesis by simp
qed

text \<open>
  Claim C3, as the code has it. For every call of the sync entry point whose pass raises
  an error: the call returns normally with the error logged; the guard flag is cleared and
  the last-sync time is set to the time of the \<open>finally\<close> block (the cooldown starts
  again, it is not cleared); the table is the one the pass had reached when the error was
  raised, and every row present before the call is still present; a later call made
  before the cooldown has passed returns at once and changes nothing, and a later call
  made after it runs a new pass.
\<close>

theorem syncExecutions_failed_pass:
  assumes "\<not> syncInProgress w"
    and "SYNC_COOLDOWN \<le> now - lastSyncTime w"
    and "run_pass remote (w\<lparr>syncInProgress := True\<rparr>) = Some (Inl e, w')"
  shows "\<exists>w_end. syncExecutions remote now now' w = Some w_end
    \<and> console w_end = console w' @ [SyncFailed e]
    \<and> \<not> syncInProgress w_end
    \<and> lastSyncTime w_end = now'
    \<and> executionOrder w_end = executionOrder w'
    \<and> (\<forall>k r. find_row (executionOrder w) k = Some r \<longrightarrow>
          (\<exists>r'. find_row (executionOrder w_end) k = Some r'))
    \<and> (\<forall>remote2 t t'. t - now' < SYNC_COOLDOWN \<longrightarrow>
          syncExecutions remote2 t t' w_end = Some w_end)
    \<and> (\<forall>remote2 t t'. SYNC_COOLDOWN \<le> t - now' \<longrightarrow>
          syncExecutions remote2 t t' w_end
          = (case run_pass remote2 (w_end\<lparr>syncInProgress := True\<rparr>) of
               None \<Rightarrow> None
             | Some (Inl e2, w2) \<Rightarrow>
                 Some (w2\<lparr>console := console w2 @ [SyncFailed e2],
                          syncInProgress := False, lastSyncTime := t'\<rparr>)
             | Some (Inr u, w2) \<Rightarrow>
                 Some (w2\<lparr>syncInProgress := False, lastSyncTime := t'\<rparr>)))"
proof -
  let ?end = "w'\<lparr>console := console w' @ [SyncFailed e],
                 syncInProgress := False, lastSyncTime := now'\<rparr>"
  have res: "syncExecutions remote now now' w = Some ?end"
    using assms by (simp add: syncExecutions_def)
  have keep: "\<exists>r'. find_row (executionOrder ?end) k = Some r'"
    if "find_row (executionOrder w) k = Some r" for k r
    using run_pass_keeps [OF assms(3), of k r] that by simp
  have wait: "syncExecutions remote2 t t' ?end = Some ?end"
    if "t - now' < SYNC_COOLDOWN" for remote2 t t'
    using that by (simp add: syncExecutions_def)
  have retry: "syncExecutions remote2 t t' ?end
          = (case run_pass remote2 (?end\<lparr>syncInProgress := True\<rparr>) of
               None \<Rightarrow> None
             | Some (Inl e2, w2) \<Rightarrow>
                 Some (w2\<lparr>console := console w2 @ [SyncFailed e2],
                          syncInProgress := False, lastSyncTime := t'\<rparr>)
             | Some (Inr u, w2) \<Rightarrow>
                 Some (w2\<lparr>syncInProgress := False, lastSyncTime := t'\<rparr>))"
    if "SYNC_COOLDOWN \<le> t - now'" for remote2 t t'
    using that by (simp add: syncExecutions_def)
  show ?thesis
    by (rule exI [of _ ?end]) (use res keep wait retry in simp)
qed

lemma flaky_pass:
  "run_pass flaky_remote (idle_world\<lparr>syncInProgress := True\<rparr>) =
     Some (Inl (Error ''n8n API error 502: Bad Gateway''),
       idle_world\<lparr>syncInProgress := True, requests := [None, Some ''c2''],
         executionOrder :=
           upsertBatch [sample_exec ''B'' ''success'', sample_exec ''C'' ''success'']
             sample_cache\<rparr>)"
proof -
  let ?p1 = "\<lparr> resp_data = Some [sample_exec ''B'' ''success'', sample_exec ''C'' ''success''],
              nextCursor = Some ''c2'' \<rparr>"
  let ?w = "idle_world\<lparr>syncInProgress := True\<rparr>"
  have d: "distinct (map executionId sample_cache)"
    by (simp add: sample_cache_rows)
  have f1: "flaky_remote None = Inr ?p1"
    and f2: "flaky_remote (Some ''c2'') = Inl (Error ''n8n API error 502: Bad Gateway'')"
    by (simp_all add: flaky_remote_def)
  have ts: "toSync [sample_exec ''B'' ''success'', sample_exec ''C'' ''success''] sample_cache
      = [sample_exec ''B'' ''success'', sample_exec ''C'' ''success'']"
    by (simp add: toSync_stale [OF d] stale_by_keys sample_cache_keys)
  have "incrementalSync_loop flaky_remote None 0 ?w
      = incrementalSync_loop flaky_remote (Some ''c2'') 2
          (?w\<lparr>requests := requests ?w @ [None],
               executionOrder :=
                 upsertBatch [sample_exec ''B'' ''success'', sample_exec ''C'' ''success'']
                   (executionOrder ?w)\<rparr>)"
    using incrementalSync_loop_next [of flaky_remote None ?p1 ?w 0] f1 ts
    by (simp add: data_of_def no_cursor_def numeral_2_eq_2 idle_world_def)
  also have "\<dots> = Some (Inl (Error ''n8n API error 502: Bad Gateway''),
       idle_world\<lparr>syncInProgress := True, requests := [None, Some ''c2''],
         executionOrder :=
           upsertBatch [sample_exec ''B'' ''success'', sample_exec ''C'' ''success'']
             sample_cache\<rparr>)"
    by (simp add: incrementalSync_loop_error
          [where remote = flaky_remote and cursor = "Some ''c2''", OF f2] idle_world_def)
  finally show ?thesis
    by (simp add: run_pass_def incrementalSync_def idle_world_def sample_cache_def)
qed

theorem syncExecutions_failed_pass_witness:
  "\<exists>w_end. syncExecutions flaky_remote 1770000000000 1770000000400 idle_world = Some w_end
     \<and> console w_end = [SyncFailed (Error ''n8n API error 502: Bad Gateway'')]
     \<and> \<not> syncInProgress w_end
     \<and> lastSyncTime w_end = 1770000000400
     \<and> map (\<lambda>r. (executionId r, status r)) (executionOrder w_end)
          = [(''A'', ''success''), (''B'', ''success''), (''C'', ''success'')]
     \<and> syncExecutions sample_remote 1770000059000 1770000059400 w_end = Some w_end
     \<and> syncExecutions sample_remote 1770000060400 1770000060800 w_end
          = (case run_pass sample_remote (w_end\<lparr>syncInProgress := True\<rparr>) of
               None \<Rightarrow> None
             | Some (Inl e2, w2) \<Rightarrow>
                 Some (w2\<lparr>console := console w2 @ [SyncFailed e2],
                          syncInProgress := False, lastSyncTime := 1770000060800\<rparr>)
             | Some (Inr u, w2) \<Rightarrow>
                 Some (w2\<lparr>syncInProgress := False, lastSyncTime := 1770000060800\<rparr>))"
proof -
  have g: "\<not> syncInProgress idle_world"
    and c: "SYNC_COOLDOWN \<le> 1770000000000 - lastSyncTime idle_world"
    by (simp_all add: idle_world_def SYNC_COOLDOWN_def)
  from syncExecutions_failed_pass [OF g c flaky_pass, of 1770000000400]
  obtain w_end where
    "syncExecutions flaky_remote 1770000000000 1770000000400 idle_world = Some w_end"
    "console w_end = [SyncFailed (Error ''n8n API error 502: Bad Gateway'')]"
    "\<not> syncInProgress w_end"
    "lastSyncTime w_end = 1770000000400"
    "executionOrder w_end =
       upsertBatch [sample_exec ''B'' ''success'', sample_exec ''C'' ''success''] sample_cache"
    and wait: "\<And>remote2 t t'. t - 1770000000400 < SYNC_COOLDOWN \<Longrightarrow>
          syncExecutions remote2 t t' w_end = Some w_end"
    and retry: "\<And>remote2 t t'. SYNC_COOLDOWN \<le> t - 1770000000400 \<Longrightarrow>
          syncExecutions remote2 t t' w_end
          = (case run_pass remote2 (w_end\<lparr>syncInProgress := True\<rparr>) of
               None \<Rightarrow> None
             | Some (Inl e2, w2) \<Rightarrow>
                 Some (w2\<lparr>console := console w2 @ [SyncFailed e2],
                          syncInProgress := False, lastSyncTime := t'\<rparr>)
             | Some (Inr u, w2) \<Rightarrow>
                 Some (w2\<lparr>syncInProgress := False, lastSyncTime := t'\<rparr>))"
    by (auto simp: idle_world_def)
  moreover have "(1770000059000::int) - 1770000000400 < SYNC_COOLDOWN"
    and "SYNC_COOLDOWN \<le> (1770000060400::int) - 1770000000400"
    by (simp_all add: SYNC_COOLDOWN_def)
  ultimately show ?thesis
    by (intro exI [of _ w_end]) (simp add: sample_first_page)
qed

text \<open>
  The cooldown is not cleared by a failed pass: thirty seconds after a pass that failed
  on its first request, a call with a remote source that works again makes no request.
\<close>

theorem syncExecutions_cooldown_counterexample:
  "syncExecutions failing_remote 1770000000000 1770000000400 idle_world = Some failed_world
   \<and> lastSyncTime failed_world = 1770000000400
   \<and> syncExecutions sample_remote 1770000030000 1770000030400 failed_world
       = Some failed_world"
proof -
  have "incrementalSync_loop failing_remote None 0 (idle_world\<lparr>syncInProgress := True\<rparr>)
      = Some (Inl (Error ''n8n API error 500: Internal Server Error''),
          idle_world\<lparr>syncInProgress := True, requests := [None]\<rparr>)"
    by (simp add: incrementalSync_loop_error failing_remote_def idle_world_def)
  then have "syncExecutions failing_remote 1770000000000 1770000000400 idle_world
      = Some failed_world"
    by (simp add: syncExecutions_def run_pass_def incrementalSync_def idle_world_def
          failed_world_def SYNC_COOLDOWN_def sample_cache_def)
  moreover have "syncExecutions sample_remote 1770000030000 1770000030400 failed_world
       = Some failed_world"
    by (simp add: syncExecutions_def failed_world_def SYNC_COOLDOWN_def)
  ultimately show ?thesis by (simp add: failed_world_def)
qed

section \<open>Properties of the table sync\<close>

lemma insert_fields_Inr:
  "insert_fields fs db = Inr db' \<Longrightarrow>
   softrField db' = softrField db @ fs \<and> softrTable db' = softrTable db"
  by (induction fs arbitrary: db) (auto split: if_splits)

lemma create_table_Inr:
  "create_table t db = Inr db' \<Longrightarrow>
   softrTable db' = softrTable db @ [table_row_of t]
   \<and> softrField db' = softrField db @ field_rows_of t"
  by (auto simp: create_table_def split: if_splits dest: insert_fields_Inr)

lemma create_tables_Inr:
  "create_tables ts db = Inr db' \<Longrightarrow>
   softrTable db' = softrTable db @ map table_row_of ts
   \<and> softrField db' = softrField db @ concat (map field_rows_of ts)"
proof (induction ts arbitrary: db)
  case Nil
  then show ?case by simp
next
  case (Cons t ts)
  then obtain db1 where c: "create_table t db = Inr db1" and r: "create_tables ts db1 = Inr db'"
    by (auto split: sum.splits)
  from create_table_Inr [OF c] Cons.IH [OF r] show ?case by simp
qed

lemma replace_all_Inr:
  "replace_all tables db = Inr db' \<Longrightarrow>
   softrTable db' = map table_row_of tables
   \<and> softrField db' = concat (map field_rows_of tables)"
  by (auto simp: replace_all_def dest: create_tables_Inr)

text \<open>
  Claim C2. The table sync replaces the schema cache in one transaction (delete all field
  rows, delete all table rows, insert every fetched table with its fields): when it
  succeeds the cache holds exactly the fetched tables and their fields and nothing of the
  old rows; in every run in which a fetch before the transaction or the transaction itself
  fails, the error is raised and the cached tables and fields are exactly as before.
\<close>

theorem syncSoftrData_all_or_nothing:
  "(fetch_tables ev api = Inl e \<longrightarrow> syncSoftrData ev api db = (Inl e, db))
   \<and> (fetch_tables ev api = Inr tables \<and> replace_all tables db = Inl e \<longrightarrow>
        syncSoftrData ev api db = (Inl e, db))
   \<and> (fetch_tables ev api = Inr tables \<and> replace_all tables db = Inr db' \<longrightarrow>
        syncSoftrData ev api db = (Inr (length tables), db')
        \<and> softrTable db' = map table_row_of tables
        \<and> softrField db' = concat (map field_rows_of tables))
   \<and> (fst (syncSoftrData ev api db) = Inl e \<longrightarrow> snd (syncSoftrData ev api db) = db)"
proof (intro conjI impI)
  assume "fetch_tables ev api = Inl e"
  then show "syncSoftrData ev api db = (Inl e, db)"
    by (simp add: syncSoftrData_def)
next
  assume "fetch_tables ev api = Inr tables \<and> replace_all tables db = Inl e"
  then show "syncSoftrData ev api db = (Inl e, db)"
    by (simp add: syncSoftrData_def transaction_def)
next
  assume a: "fetch_tables ev api = Inr tables \<and> replace_all tables db = Inr db'"
  then show "syncSoftrData ev api db = (Inr (length tables), db')"
    by (simp add: syncSoftrData_def transaction_def)
  from a replace_all_Inr [of tables db db']
  show "softrTable db' = map table_row_of tables"
    and "softrField db' = concat (map field_rows_of tables)"
    by simp_all
next
  assume "fst (syncSoftrData ev api db) = Inl e"
  then show "snd (syncSoftrData ev api db) = db"
    by (auto simp: syncSoftrData_def transaction_def split: sum.splits)
qed


lemmas softr_sample_defs =
  sample_env_def sample_api_def detail_of_def answers_third_fails_def answers_clash_def
  answers_second_empty_def

lemmas softr_fetch_defs =
  fetch_tables_def getDatabaseId_def getTables_def getTable_def getApiKey_def

lemmas softr_rows_defs =
  replace_all_def create_table_def field_rows_of_def field_row_of_def table_row_of_def
  orders_table_def lines_table_def swatches_table_def clashing_table_def sample_table_def
  sample_field_def

lemma fetch_third_fails:
  "fetch_tables sample_env (sample_api answers_third_fails)
     = Inl (Error ''Softr API error 500: upstream failure'')"
  by (simp add: softr_fetch_defs softr_sample_defs)

lemma fetch_clash:
  "fetch_tables sample_env (sample_api answers_clash) = Inr [orders_table, clashing_table]"
  by (simp add: softr_fetch_defs softr_sample_defs List.map_filter_simps)

lemma fetch_second_empty:
  "fetch_tables sample_env (sample_api answers_second_empty)
     = Inr [orders_table, swatches_table]"
  by (simp add: softr_fetch_defs softr_sample_defs List.map_filter_simps)

lemma replace_clash:
  "replace_all [orders_table, clashing_table] cached_schema = Inl unique_violation"
  by (simp add: softr_rows_defs)

lemma replace_second_empty:
  "replace_all [orders_table, swatches_table] cached_schema
     = Inr \<lparr> softrTable = map table_row_of [orders_table, swatches_table],
             softrField = concat (map field_rows_of [orders_table, swatches_table]) \<rparr>"
  by (simp add: softr_rows_defs cached_schema_def)

theorem syncSoftrData_all_or_nothing_witness:
  "syncSoftrData sample_env (sample_api answers_third_fails) cached_schema
     = (Inl (Error ''Softr API error 500: upstream failure''), cached_schema)
   \<and> syncSoftrData sample_env (sample_api answers_clash) cached_schema
     = (Inl unique_violation, cached_schema)
   \<and> syncSoftrData sample_env (sample_api answers_second_empty) cached_schema
     = (Inr 2, \<lparr> softrTable = map table_row_of [orders_table, swatches_table],
                 softrField = concat (map field_rows_of [orders_table, swatches_table]) \<rparr>)
   \<and> map tr_id (softrTable cached_schema) = [''t1'', ''t2'', ''t3'']"
proof -
  from syncSoftrData_all_or_nothing
    [of sample_env "sample_api answers_third_fails"
        "Error ''Softr API error 500: upstream failure''" cached_schema]
    fetch_third_fails
  have a: "syncSoftrData sample_env (sample_api answers_third_fails) cached_schema
     = (Inl (Error ''Softr API error 500: upstream failure''), cached_schema)"
    by simp
  from syncSoftrData_all_or_nothing
    [of sample_env "sample_api answers_clash" unique_violation cached_schema
        "[orders_table, clashing_table]"]
    fetch_clash replace_clash
  have b: "syncSoftrData sample_env (sample_api answers_clash) cached_schema
     = (Inl unique_violation, cached_schema)"
    by simp
  from syncSoftrData_all_or_nothing
    [of sample_env "sample_api answers_second_empty" _ cached_schema
        "[orders_table, swatches_table]"
        "\<lparr> softrTable = map table_row_of [orders_table, swatches_table],
           softrField = concat (map field_rows_of [orders_table, swatches_table]) \<rparr>"]
    fetch_second_empty replace_second_empty
  have c: "syncSoftrData sample_env (sample_api answers_second_empty) cached_schema
     = (Inr 2, \<lparr> softrTable = map table_row_of [orders_table, swatches_table],
                 softrField = concat (map field_rows_of [orders_table, swatches_table]) \<rparr>)"
    by simp
  have d: "map tr_id (softrTable cached_schema) = [''t1'', ''t2'', ''t3'']"
    by (simp add: cached_schema_def softr_rows_defs)
  from a b c d show ?thesis by simp
qed

lemma promise_all_Inr: "promise_all (map Inr vs) = Inr vs"
  by (induction vs) simp_all

lemma promise_all_Inl:
  "Inl e \<in> set rs \<Longrightarrow> \<exists>e'. promise_all rs = Inl e'"
proof (induction rs)
  case Nil
  then show ?case by simp
next
  case (Cons r rs)
  show ?case
  proof (cases r)
    case (Inl a)
    then show ?thesis by simp
  next
    case (Inr b)
    with Cons obtain e' where "promise_all rs = Inl e'" by auto
    with Inr show ?thesis by simp
  qed
qed

text \<open>
  Claim C4, as the code has it. When every detail fetch succeeds, the tables whose fetch
  returned nothing are filtered out, the remaining tables are the ones written, and the
  number returned is the number of tables written. A detail fetch that fails is not
  filtered out: the whole sync raises and the cache is left as it was.
\<close>

theorem syncSoftrData_filters_empty_details:
  assumes "getDatabaseId ev = Inr databaseId"
    and "getTables ev api databaseId = Inr tablesList"
  shows "(map (getTable ev api databaseId) tablesList = map Inr detailed \<longrightarrow>
           fetch_tables ev api = Inr (List.map_filter (\<lambda>d. d) detailed)
           \<and> (replace_all (List.map_filter (\<lambda>d. d) detailed) db = Inr db' \<longrightarrow>
                syncSoftrData ev api db = (Inr (length (softrTable db')), db')
                \<and> softrTable db' = map table_row_of (List.map_filter (\<lambda>d. d) detailed)))
    \<and> (t \<in> set tablesList \<and> getTable ev api databaseId t = Inl e \<longrightarrow>
           (\<exists>e'. syncSoftrData ev api db = (Inl e', db)))"
proof (intro conjI impI)
  assume ok: "map (getTable ev api databaseId) tablesList = map Inr detailed"
  then show f: "fetch_tables ev api = Inr (List.map_filter (\<lambda>d. d) detailed)"
    using assms by (simp add: fetch_tables_def promise_all_Inr)
  assume r: "replace_all (List.map_filter (\<lambda>d. d) detailed) db = Inr db'"
  from replace_all_Inr [OF r]
  show t: "softrTable db' = map table_row_of (List.map_filter (\<lambda>d. d) detailed)"
    by simp
  from f r t show "syncSoftrData ev api db = (Inr (length (softrTable db')), db')"
    by (simp add: syncSoftrData_def transaction_def)
next
  assume "t \<in> set tablesList \<and> getTable ev api databaseId t = Inl e"
  then have "Inl e \<in> set (map (getTable ev api databaseId) tablesList)"
    by force
  then obtain e' where "promise_all (map (getTable ev api databaseId) tablesList) = Inl e'"
    using promise_all_Inl by blast
  with assms have "fetch_tables ev api = Inl e'"
    by (simp add: fetch_tables_def)
  then have "syncSoftrData ev api db = (Inl e', db)"
    by (simp add: syncSoftrData_def)
  then show "\<exists>e'. syncSoftrData ev api db = (Inl e', db)" ..
qed

theorem syncSoftrData_filters_empty_details_witness:
  "fetch_tables sample_env (sample_api answers_second_empty)
     = Inr [orders_table, swatches_table]
   \<and> syncSoftrData sample_env (sample_api answers_second_empty) cached_schema
     = (Inr 2, \<lparr> softrTable = map table_row_of [orders_table, swatches_table],
                 softrField = concat (map field_rows_of [orders_table, swatches_table]) \<rparr>)
   \<and> (\<exists>e'. syncSoftrData sample_env (sample_api answers_third_fails) cached_schema
              = (Inl e', cached_schema))"
proof -
  have i: "getDatabaseId sample_env = Inr ''db1''"
    by (simp add: getDatabaseId_def sample_env_def)
  have l2: "getTables sample_env (sample_api answers_second_empty) ''db1''
              = Inr [''t1'', ''t2'', ''t3'']"
    and l3: "getTables sample_env (sample_api answers_third_fails) ''db1''
              = Inr [''t1'', ''t2'', ''t3'']"
    by (simp_all add: softr_fetch_defs softr_sample_defs)
  have d2: "map (getTable sample_env (sample_api answers_second_empty) ''db1'')
              [''t1'', ''t2'', ''t3'']
            = map Inr [Some orders_table, None, Some swatches_table]"
    by (simp add: softr_fetch_defs softr_sample_defs)
  have d3: "''t3'' \<in> set [''t1'', ''t2'', ''t3'']
      \<and> getTable sample_env (sample_api answers_third_fails) ''db1'' ''t3''
            = Inl (Error ''Softr API error 500: upstream failure'')"
    by (simp add: softr_fetch_defs softr_sample_defs)
  have m: "List.map_filter (\<lambda>d. d) [Some orders_table, None, Some swatches_table]
      = [orders_table, swatches_table]"
    by (simp add: List.map_filter_simps)
  note ok = syncSoftrData_filters_empty_details [OF i l2,
      where detailed = "[Some orders_table, None, Some swatches_table]"
        and db = cached_schema
        and db' = "\<lparr> softrTable = map table_row_of [orders_table, swatches_table],
           softrField = concat (map field_rows_of [orders_table, swatches_table]) \<rparr>",
      THEN conjunct1, rule_format, OF d2]
  from ok have a: "fetch_tables sample_env (sample_api answers_second_empty)
     = Inr [orders_table, swatches_table]"
    by (simp add: m)
  from ok replace_second_empty
  have b: "syncSoftrData sample_env (sample_api answers_second_empty) cached_schema
     = (Inr 2, \<lparr> softrTable = map table_row_of [orders_table, swatches_table],
                 softrField = concat (map field_rows_of [orders_table, swatches_table]) \<rparr>)"
    by (simp add: m)
  from syncSoftrData_filters_empty_details [OF i l3,
      where t = "''t3''" and e = "Error ''Softr API error 500: upstream failure''"
        and db = cached_schema, THEN conjunct2, rule_format, OF d3]
  have c: "\<exists>e'. syncSoftrData sample_env (sample_api answers_third_fails) cached_schema
              = (Inl e', cached_schema)" .
  from a b c show ?thesis by blast
qed

text \<open>
  A failed detail fetch is not filtered out: with two tables fetched and the third fetch
  failing, the sync on an empty cache raises the error and writes no table.
\<close>

theorem syncSoftrData_failed_detail_counterexample:
  "getTable sample_env (sample_api answers_third_fails) ''db1'' ''t1'' = Inr (Some orders_table)
   \<and> getTable sample_env (sample_api answers_third_fails) ''db1'' ''t2'' = Inr (Some lines_table)
   \<and> getTable sample_env (sample_api answers_third_fails) ''db1'' ''t3''
       = Inl (Error ''Softr API error 500: upstream failure'')
   \<and> syncSoftrData sample_env (sample_api answers_third_fails) empty_schema
       = (Inl (Error ''Softr API error 500: upstream failure''), empty_schema)
   \<and> softrTable empty_schema = []"
  by (simp add: syncSoftrData_def fetch_third_fails)
     (simp add: softr_fetch_defs softr_sample_defs empty_schema_def)

section \<open>Properties of the display resolver\<close>

lemma array_index_0: "array_index ''0'' = Some 0"
  by (simp add: array_index_def is_digit_def)

lemma opt_get_first: "opt_get (JArr (x # xs)) ''0'' = x"
  by (simp add: opt_get_def array_index_0)

lemma get_not_nullish: "\<not> nullish v \<Longrightarrow> get v k = Inr (opt_get v k)"
  by (cases v) (simp_all add: opt_get_def)

lemma attachment_entry_not_nullish:
  "\<not> nullish a \<Longrightarrow> attachment_entry a = Inr (url_and_filename a)"
  by (simp add: attachment_entry_def url_and_filename_def get_not_nullish)

lemma map_attachments_not_nullish:
  "list_all (\<lambda>a. \<not> nullish a) xs \<Longrightarrow> map_attachments xs = Inr (map url_and_filename xs)"
  by (induction xs) (simp_all add: attachment_entry_not_nullish)

lemma first_carries_url_test:
  "first_carries_url v \<longleftrightarrow>
     is_array v \<and> 0 < length (elems v) \<and> truthy (opt_get (opt_get v ''0'') ''url'')"
proof (cases v)
  case (JArr xs)
  then show ?thesis
    by (cases xs) (simp_all add: first_carries_url_def opt_get_first)
qed (simp_all add: first_carries_url_def)

lemma is_object_not_nullish: "is_object a \<Longrightarrow> \<not> nullish a"
  by (cases a) simp_all

lemma attachment_list_first:
  "attachment_list v \<Longrightarrow> first_carries_url v \<and> list_all (\<lambda>a. \<not> nullish a) (elems v)"
proof (cases v)
  case (JArr xs)
  assume "attachment_list v"
  with JArr show ?thesis
    by (cases xs)
       (auto simp: attachment_list_def first_carries_url_def carries_url_def list_all_iff
             dest: is_object_not_nullish)
qed (simp_all add: attachment_list_def)

text \<open>
  Claim C8, as the code has it. For every raw field value: \<open>null\<close> and \<open>undefined\<close>
  resolve to themselves; a non-array object carrying a label resolves to that label; a
  non-empty list whose first element carries a url (in particular every non-empty list of
  objects carrying a url) resolves, when none of its elements is \<open>null\<close> or \<open>undefined\<close>,
  to the list of \<open>{url, filename}\<close> entries of its elements, the filename being
  "Download" when absent; and every value that neither carries a label nor is a list whose
  first element carries a url resolves to itself. So \<open>{id:"x", label:"Blue"}\<close> resolves
  to "Blue" and \<open>[{url:"u1"}]\<close> to \<open>[{url:"u1", filename:"Download"}]\<close>.
\<close>

theorem resolveFieldValue_cases:
  "(nullish v \<longrightarrow> resolveFieldValue v = Inr v)
   \<and> (carries_label v \<longrightarrow> resolveFieldValue v = Inr (opt_get v ''label''))
   \<and> (first_carries_url v \<and> list_all (\<lambda>a. \<not> nullish a) (elems v) \<longrightarrow>
        resolveFieldValue v = Inr (JArr (map url_and_filename (elems v))))
   \<and> (attachment_list v \<longrightarrow>
        resolveFieldValue v = Inr (JArr (map url_and_filename (elems v))))
   \<and> (\<not> carries_label v \<and> \<not> first_carries_url v \<longrightarrow> resolveFieldValue v = Inr v)
   \<and> (opt_get a ''filename'' = JUndefined \<longrightarrow>
        url_and_filename a = JObj [(''url'', opt_get a ''url''), (''filename'', JStr ''Download'')])"
proof -
  have n: "resolveFieldValue v = Inr v" if "nullish v"
    using that by (simp add: resolveFieldValue_def)
  have l: "resolveFieldValue v = Inr (opt_get v ''label'')" if "carries_label v"
  proof -
    from that have "\<not> nullish v" by (cases v) (simp_all add: carries_label_def)
    with that show ?thesis by (simp add: resolveFieldValue_def carries_label_def)
  qed
  have f: "resolveFieldValue v = Inr (JArr (map url_and_filename (elems v)))"
    if "first_carries_url v" "list_all (\<lambda>a. \<not> nullish a) (elems v)"
  proof -
    from that(1) have "is_array v" by (simp add: first_carries_url_def)
    then have "\<not> nullish v" "\<not> is_object v" by (cases v; simp)+
    with that show ?thesis
      by (simp add: resolveFieldValue_def first_carries_url_test map_attachments_not_nullish)
  qed
  have a: "resolveFieldValue v = Inr (JArr (map url_and_filename (elems v)))"
    if "attachment_list v"
    using attachment_list_first [OF that] f by simp
  have o: "resolveFieldValue v = Inr v" if "\<not> carries_label v" "\<not> first_carries_url v"
    using that unfolding resolveFieldValue_def first_carries_url_test carries_label_def
    by auto
  have d: "url_and_filename a = JObj [(''url'', opt_get a ''url''), (''filename'', JStr ''Download'')]"
    if "opt_get a ''filename'' = JUndefined"
    using that by (simp add: url_and_filename_def)
  from n l f a o d show ?thesis by blast
qed

theorem resolveFieldValue_cases_witness:
  "resolveFieldValue select_value = Inr (JStr ''Blue'')
   \<and> resolveFieldValue attachment_value
       = Inr (JArr [JObj [(''url'', JStr ''u1''), (''filename'', JStr ''Download'')]])
   \<and> resolveFieldValue (JStr ''plain'') = Inr (JStr ''plain'')
   \<and> resolveFieldValue JNull = Inr JNull
   \<and> resolveFieldValue mixed_list_value
       = Inr (JArr [JObj [(''url'', JStr ''u1''), (''filename'', JStr ''Download'')],
                    JObj [(''url'', JUndefined), (''filename'', JStr ''Download'')]])"
proof -
  have 1: "carries_label select_value" "opt_get select_value ''label'' = JStr ''Blue''"
    by (simp_all add: carries_label_def select_value_def opt_get_def)
  have 2: "attachment_list attachment_value"
    by (simp add: attachment_list_def attachment_value_def carries_url_def opt_get_def)
  have 3: "\<not> carries_label (JStr ''plain'') \<and> \<not> first_carries_url (JStr ''plain'')"
    by (simp add: carries_label_def first_carries_url_def)
  have 4: "nullish JNull" by simp
  have 5: "first_carries_url mixed_list_value
      \<and> list_all (\<lambda>a. \<not> nullish a) (elems mixed_list_value)"
    by (simp add: first_carries_url_def mixed_list_value_def opt_get_def)
  from resolveFieldValue_cases [of select_value] 1
  have a: "resolveFieldValue select_value = Inr (JStr ''Blue'')" by simp
  from resolveFieldValue_cases [of attachment_value] 2
  have b: "resolveFieldValue attachment_value
       = Inr (JArr [JObj [(''url'', JStr ''u1''), (''filename'', JStr ''Download'')]])"
    by (simp add: attachment_value_def url_and_filename_def opt_get_def)
  from resolveFieldValue_cases [of "JStr ''plain''"] 3
  have c: "resolveFieldValue (JStr ''plain'') = Inr (JStr ''plain'')" by simp
  from resolveFieldValue_cases [of JNull] 4
  have d: "resolveFieldValue JNull = Inr JNull" by simp
  from resolveFieldValue_cases [of mixed_list_value] 5
  have e: "resolveFieldValue mixed_list_value
       = Inr (JArr [JObj [(''url'', JStr ''u1''), (''filename'', JStr ''Download'')],
                    JObj [(''url'', JUndefined), (''filename'', JStr ''Download'')]])"
    by (simp add: mixed_list_value_def url_and_filename_def opt_get_def)
  from a b c d e show ?thesis by simp
qed

text \<open>
  Reading \<open>att.url\<close> on a \<open>null\<close> element raises: the entries are built without
  optional chaining.
\<close>

lemma resolveFieldValue_null_element:
  "resolveFieldValue (JArr [JObj [(''url'', JStr ''u1'')], JNull]) = Inl TypeError"
  by (simp add: resolveFieldValue_def opt_get_def array_index_0 attachment_entry_def)

text \<open>
  Not every other value passes through: a list whose first element carries a url and
  whose second does not is neither an object with a label nor a list of objects carrying
  a url, and it is rewritten.
\<close>

theorem resolveFieldValue_mixed_list_counterexample:
  "\<not> carries_label mixed_list_value
   \<and> \<not> attachment_list mixed_list_value
   \<and> resolveFieldValue mixed_list_value
       = Inr (JArr [JObj [(''url'', JStr ''u1''), (''filename'', JStr ''Download'')],
                    JObj [(''url'', JUndefined), (''filename'', JStr ''Download'')]])
   \<and> resolveFieldValue mixed_list_value \<noteq> Inr mixed_list_value"
  by (simp add: carries_label_def attachment_list_def carries_url_def mixed_list_value_def
        resolveFieldValue_def opt_get_def array_index_0 attachment_entry_def)

section \<open>Properties of the search conditions\<close>

lemma dropWhile_spaces_prefix:
  "list_all is_space pre \<Longrightarrow> dropWhile is_space (pre @ s) = dropWhile is_space s"
  by (induction pre) simp_all

lemma dropWhile_all_spaces: "list_all is_space s \<Longrightarrow> dropWhile is_space s = []"
  by (induction s) simp_all

lemma js_trim_all_spaces: "list_all is_space s \<Longrightarrow> js_trim s = []"
  by (simp only: js_trim_def dropWhile_all_spaces rev.simps dropWhile.simps)

lemma js_trim_padded:
  assumes "list_all is_space pre" and "list_all is_space post"
  shows "js_trim (pre @ q @ post) = js_trim q"
proof -
  have a: "dropWhile is_space (pre @ q @ post) = dropWhile is_space (q @ post)"
    using assms(1) by (rule dropWhile_spaces_prefix)
  have p: "list_all is_space (rev post)"
    using assms(2) by (simp add: list_all_iff)
  show ?thesis
  proof (cases "list_all is_space q")
    case True
    with assms have "list_all is_space (pre @ q @ post)" by simp
    then have "js_trim (pre @ q @ post) = []" by (rule js_trim_all_spaces)
    moreover from True have "js_trim q = []" by (rule js_trim_all_spaces)
    ultimately show ?thesis by (simp only:)
  next
    case False
    then have "dropWhile is_space (q @ post) = dropWhile is_space q @ post"
      by (auto simp: list_all_iff dropWhile_append1)
    with a have "rev (dropWhile is_space (pre @ q @ post))
        = rev post @ rev (dropWhile is_space q)"
      by (simp only: rev_append)
    moreover have "dropWhile is_space (rev post @ rev (dropWhile is_space q))
        = dropWhile is_space (rev (dropWhile is_space q))"
      using p by (rule dropWhile_spaces_prefix)
    ultimately show ?thesis by (simp only: js_trim_def)
  qed
qed

lemma last_dropWhile: "dropWhile P xs \<noteq> [] \<Longrightarrow> last (dropWhile P xs) = last xs"
  by (induction xs) (auto split: if_splits)

lemma dropWhile_unchanged: "xs = [] \<or> \<not> P (hd xs) \<Longrightarrow> dropWhile P xs = xs"
  by (cases xs) auto

lemma js_trim_idem: "js_trim (js_trim s) = js_trim s"
proof -
  let ?a = "dropWhile is_space s"
  let ?b = "dropWhile is_space (rev ?a)"
  have "rev ?b = [] \<or> \<not> is_space (hd (rev ?b))"
  proof (cases "?b = []")
    case True
    then show ?thesis by (simp only: rev.simps simp_thms)
  next
    case False
    have ne: "?a \<noteq> []"
    proof
      assume "?a = []"
      then have "?b = []" by (simp only: rev.simps dropWhile.simps)
      with False show False ..
    qed
    have "hd (rev ?b) = last ?b" using False by (simp only: hd_rev)
    also have "\<dots> = last (rev ?a)" using False by (rule last_dropWhile)
    also have "\<dots> = hd ?a" using ne by (simp only: last_rev)
    finally have "hd (rev ?b) = hd ?a" .
    moreover have "\<not> is_space (hd ?a)" using ne by (rule hd_dropWhile)
    ultimately show ?thesis by (simp only: simp_thms)
  qed
  then have "dropWhile is_space (rev ?b) = rev ?b"
    by (rule dropWhile_unchanged)
  then show ?thesis
    by (simp only: js_trim_def rev_rev_ident dropWhile_idem)
qed

text \<open>
  Claim C10. For every query and every searchable table the condition built depends on
  the query only through its trimmed form, which is what is compared (after the number
  coercion for NUMBER and FORMULA fields): a query padded with leading and trailing white
  space gives the same per-table condition, and the same list of search requests, as the
  query without the padding.
\<close>

theorem search_conditions_use_trimmed_query:
  assumes "list_all is_space pre" and "list_all is_space post"
  shows "table_condition Number (pre @ q @ post) fieldNames table
           = table_condition Number q fieldNames table
    \<and> table_condition Number q fieldNames table
           = table_condition Number (js_trim q) fieldNames table
    \<and> search_requests Number (pre @ q @ post) limit tables
           = search_requests Number q limit tables"
proof -
  have t: "js_trim (pre @ q @ post) = js_trim q"
    using assms by (rule js_trim_padded)
  have e: "js_trim [] = []" by (simp add: js_trim_def)
  have c: "table_condition Number (pre @ q @ post) fns tb = table_condition Number q fns tb"
    for fns tb
    by (simp only: table_condition_def t)
  have i: "table_condition Number q fieldNames table
           = table_condition Number (js_trim q) fieldNames table"
    by (simp only: table_condition_def js_trim_idem)
  have g: "(pre @ q @ post = [] \<or> js_trim (pre @ q @ post) = []) = (q = [] \<or> js_trim q = [])"
    using t e by auto
  have r: "search_requests Number (pre @ q @ post) limit tables
           = search_requests Number q limit tables"
    unfolding search_requests_def g c by (rule refl)
  from c i r show ?thesis by simp
qed

lemma js_trim_1001: "js_trim ''1001'' = ''1001''"
  by (simp add: js_trim_def is_space_def)

lemma digits_number_1001: "digits_number ''1001'' = Some 1001"
  by (simp add: digits_number_def is_digit_def)

theorem search_conditions_use_trimmed_query_witness:
  "table_condition digits_number ([CHR '' '', CHR 0x09] @ ''1001'' @ [CHR 0x0A]) [''ID'']
       cached_orders
     = Some (Comparison ''f1'' ''IS'' (NumberOperand (Some 1001)))
   \<and> search_requests digits_number ([CHR '' '', CHR 0x09] @ ''1001'' @ [CHR 0x0A]) 10
       [cached_orders, cached_other, cached_lines]
     = [(''t1'', \<lparr> filter_condition = Comparison ''f1'' ''IS'' (NumberOperand (Some 1001)),
                   paging_offset = 0, paging_limit = 10 \<rparr>),
        (''t2'', \<lparr> filter_condition = Comparison ''f3'' ''IS'' (StringOperand ''1001''),
                   paging_offset = 0, paging_limit = 10 \<rparr>)]"
proof -
  have sp: "list_all is_space [CHR '' '', CHR 0x09]" "list_all is_space [CHR 0x0A]"
    by (simp_all add: is_space_def)
  have c: "table_condition digits_number ''1001'' [''ID''] cached_orders
     = Some (Comparison ''f1'' ''IS'' (NumberOperand (Some 1001)))"
    by (simp add: table_condition_def js_trim_1001 digits_number_1001 cached_orders_def
          NUMBER_TYPES_def field_rows_of_def field_row_of_def orders_table_def
          sample_table_def sample_field_def)
  have r: "search_requests digits_number ''1001'' 10 [cached_orders, cached_other, cached_lines]
     = [(''t1'', \<lparr> filter_condition = Comparison ''f1'' ''IS'' (NumberOperand (Some 1001)),
                   paging_offset = 0, paging_limit = 10 \<rparr>),
        (''t2'', \<lparr> filter_condition = Comparison ''f3'' ''IS'' (StringOperand ''1001''),
                   paging_offset = 0, paging_limit = 10 \<rparr>)]"
    by (simp add: search_requests_def TABLE_SEARCH_FIELDS_def table_condition_def
          js_trim_1001 digits_number_1001 cached_orders_def cached_lines_def cached_other_def
          NUMBER_TYPES_def field_rows_of_def field_row_of_def orders_table_def
          lines_table_def sample_table_def sample_field_def)
  from search_conditions_use_trimmed_query [OF sp, of digits_number "''1001''" "[''ID'']"
      cached_orders 10 "[cached_orders, cached_other, cached_lines]"] c r
  show ?thesis by (simp only:)
qed

section \<open>Properties of the node timeline\<close>

lemma mset_insert_sorted: "mset (insert_sorted cmp x ys) = add_mset x (mset ys)"
  by (induction ys) simp_all

lemma mset_js_sort: "mset (js_sort cmp xs) = mset xs"
  by (induction xs) (simp_all add: mset_insert_sorted)

lemma set_js_sort: "set (js_sort cmp xs) = set xs"
  using mset_js_sort [of cmp xs] by (metis set_mset_mset)




lemma ns_ran_summarize:
  "ns_ran (summarize rd node) =
     (has_runs rd node
      \<or> (map_of rd (node_name node) = None
          \<and> (\<exists>n. prototype_function_length (node_name node) = Some n \<and> 0 < n)))"
  by (auto simp: summarize_def runs_of_def has_runs_def split: option.splits)



lemma last_run_has_runs:
  "has_runs rd node \<Longrightarrow>
   \<exists>runs. map_of rd (node_name node) = Some runs \<and> runs \<noteq> []
          \<and> last_run rd node = Some (last runs)"
  by (auto simp: has_runs_def last_run_def runs_of_def split: option.splits)

lemma last_run_no_list: "map_of rd (node_name node) = None \<Longrightarrow> last_run rd node = None"
  by (simp add: last_run_def runs_of_def split: option.splits)

lemma timeline_entry:
  assumes "s \<in> set (node_timeline doc)"
  shows "\<exists>node \<in> set (workflow_nodes doc).
           s = summarize (run_data doc) node
           \<and> ((\<exists>runs. map_of (run_data doc) (node_name node) = Some runs \<and> runs \<noteq> []
                      \<and> last_run (run_data doc) node = Some (last runs))
              \<or> (map_of (run_data doc) (node_name node) = None
                  \<and> prototype_function_length (node_name node) \<noteq> None
                  \<and> last_run (run_data doc) node = None))"
proof -
  from assms have "s \<in> set (filter ns_ran (map (summarize (run_data doc)) (workflow_nodes doc)))"
    by (simp only: node_timeline_def set_js_sort)
  then obtain node where n: "node \<in> set (workflow_nodes doc)"
    and s: "s = summarize (run_data doc) node"
    and r: "ns_ran (summarize (run_data doc) node)"
    by auto
  from r have "has_runs (run_data doc) node
      \<or> (map_of (run_data doc) (node_name node) = None
          \<and> (\<exists>n. prototype_function_length (node_name node) = Some n \<and> 0 < n))"
    by (simp only: ns_ran_summarize)
  then have "(\<exists>runs. map_of (run_data doc) (node_name node) = Some runs \<and> runs \<noteq> []
                      \<and> last_run (run_data doc) node = Some (last runs))
              \<or> (map_of (run_data doc) (node_name node) = None
                  \<and> prototype_function_length (node_name node) \<noteq> None
                  \<and> last_run (run_data doc) node = None)"
  proof
    assume "has_runs (run_data doc) node"
    then have "\<exists>runs. map_of (run_data doc) (node_name node) = Some runs \<and> runs \<noteq> []
          \<and> last_run (run_data doc) node = Some (last runs)"
      by (rule last_run_has_runs)
    then show ?thesis ..
  next
    assume a: "map_of (run_data doc) (node_name node) = None
          \<and> (\<exists>n. prototype_function_length (node_name node) = Some n \<and> 0 < n)"
    then have "last_run (run_data doc) node = None"
      by (simp add: last_run_no_list)
    moreover from a have "prototype_function_length (node_name node) \<noteq> None"
      by auto
    ultimately show ?thesis using a by simp
  qed
  with s have "s = summarize (run_data doc) node
           \<and> ((\<exists>runs. map_of (run_data doc) (node_name node) = Some runs \<and> runs \<noteq> []
                      \<and> last_run (run_data doc) node = Some (last runs))
              \<or> (map_of (run_data doc) (node_name node) = None
                  \<and> prototype_function_length (node_name node) \<noteq> None
                  \<and> last_run (run_data doc) node = None))"
    by (rule conjI)
  with n show ?thesis by (rule bexI [rotated])
qed



lemmas timeline_eval_defs =
  node_timeline_def summarize_def last_run_def runs_of_def prototype_function_length_def
  by_start_def start_or_zero_def sample_run_def



text \<open>
  A node without a run list that is named \<open>constructor\<close> is reported as ran, with no
  start time; one named \<open>toString\<close> (a function without parameters) is not.
\<close>

lemma inherited_document_timeline:
  "map (\<lambda>s. (ns_name s, ns_startTime s)) (node_timeline inherited_document)
     = [(''constructor'', None), (''Webhook'', Some 300)]"
  by (simp add: timeline_eval_defs inherited_document_def)




lemma opt_get_json_null: "opt_get JNull ''json'' = JUndefined"
  by (simp add: opt_get_def)

lemma output_of_channels:
  "filter truthy (map (\<lambda>item. opt_get item ''json'') (flat main))
     = map (\<lambda>item. opt_get item ''json'')
         (filter carries_payload
           (concat (map (\<lambda>channel. case channel of None \<Rightarrow> [] | Some items \<Rightarrow> items) main)))"
proof (induction main)
  case Nil
  show ?case by (simp add: flat_def)
next
  case (Cons channel main)
  then have ih: "filter truthy (map (\<lambda>item. opt_get item ''json'') (flat main))
     = map (\<lambda>item. opt_get item ''json'')
         (filter carries_payload
           (concat (map (\<lambda>channel. case channel of None \<Rightarrow> [] | Some items \<Rightarrow> items) main)))"
    by simp
  have fl: "flat (channel # main)
      = (case channel of None \<Rightarrow> [JNull] | Some items \<Rightarrow> items) @ flat main"
    by (simp add: flat_def)
  show ?case
  proof (cases channel)
    case None
    with fl ih show ?thesis by (simp add: opt_get_json_null)
  next
    case (Some items)
    have "filter truthy (map (\<lambda>item. opt_get item ''json'') items)
        = map (\<lambda>item. opt_get item ''json'') (filter carries_payload items)"
      by (induction items) (simp_all add: carries_payload_def)
    with Some fl ih show ?thesis by simp
  qed
qed

lemma output_items_payloads: "output_items (Some r) = payloads r"
  by (simp add: output_items_def payloads_def channel_entries_def output_of_channels
           split: option.splits)

text \<open>
  Claim C7. For every node in the timeline, the output is computed from the last run of
  the node: the entries of its output channels in one list, those carrying a payload
  kept, and the payload of each taken. One payload is exposed as it is, more than one as
  the list, none as no output; a node that is in the timeline without a run list of its
  own has no last run and so no output. An entry carries a payload when its \<open>json\<close>
  member is truthy: every entry whose \<open>json\<close> is an object does, and no entry without
  one does.
\<close>

theorem node_output_from_last_run:
  "(\<forall>s \<in> set (node_timeline doc).
       \<exists>node \<in> set (workflow_nodes doc).
         ns_name s = node_name node
         \<and> ((\<exists>runs. map_of (run_data doc) (node_name node) = Some runs \<and> runs \<noteq> []
                    \<and> ns_output s = node_output (Some (last runs)))
            \<or> (map_of (run_data doc) (node_name node) = None \<and> ns_output s = JNull)))
   \<and> (length (payloads r) = 1 \<longrightarrow> node_output (Some r) = hd (payloads r))
   \<and> (1 < length (payloads r) \<longrightarrow> node_output (Some r) = JArr (payloads r))
   \<and> (payloads r = [] \<longrightarrow> node_output (Some r) = JNull)
   \<and> (is_object (opt_get item ''json'') \<longrightarrow> carries_payload item)
   \<and> (nullish (opt_get item ''json'') \<longrightarrow> \<not> carries_payload item)"
proof (intro conjI ballI impI)
  fix s assume "s \<in> set (node_timeline doc)"
  from timeline_entry [OF this]
  obtain node where n: "node \<in> set (workflow_nodes doc)"
    and s: "s = summarize (run_data doc) node"
    and c: "(\<exists>runs. map_of (run_data doc) (node_name node) = Some runs \<and> runs \<noteq> []
                      \<and> last_run (run_data doc) node = Some (last runs))
              \<or> (map_of (run_data doc) (node_name node) = None
                  \<and> prototype_function_length (node_name node) \<noteq> None
                  \<and> last_run (run_data doc) node = None)"
    by blast
  have none: "node_output None = JNull"
    by (simp add: node_output_def output_items_def)
  from s have "ns_name s = node_name node"
    and "ns_output s = node_output (last_run (run_data doc) node)"
    by (simp_all add: summarize_def)
  with c none have "ns_name s = node_name node
         \<and> ((\<exists>runs. map_of (run_data doc) (node_name node) = Some runs \<and> runs \<noteq> []
                    \<and> ns_output s = node_output (Some (last runs)))
            \<or> (map_of (run_data doc) (node_name node) = None \<and> ns_output s = JNull))"
    by auto
  with n show "\<exists>node \<in> set (workflow_nodes doc).
         ns_name s = node_name node
         \<and> ((\<exists>runs. map_of (run_data doc) (node_name node) = Some runs \<and> runs \<noteq> []
                    \<and> ns_output s = node_output (Some (last runs)))
            \<or> (map_of (run_data doc) (node_name node) = None \<and> ns_output s = JNull))"
    by blast
next
  assume "length (payloads r) = 1"
  then show "node_output (Some r) = hd (payloads r)"
    by (simp add: node_output_def output_items_payloads)
next
  assume "1 < length (payloads r)"
  then show "node_output (Some r) = JArr (payloads r)"
    by (auto simp: node_output_def output_items_payloads)
next
  assume "payloads r = []"
  then show "node_output (Some r) = JNull"
    by (simp add: node_output_def output_items_payloads)
next
  assume "is_object (opt_get item ''json'')"
  then show "carries_payload item"
    by (cases "opt_get item ''json''") (simp_all add: carries_payload_def)
next
  assume "nullish (opt_get item ''json'')"
  then show "\<not> carries_payload item"
    by (cases "opt_get item ''json''") (simp_all add: carries_payload_def)
qed

lemma sample_payloads:
  "payloads single_run = [JObj [(''orderNumber'', JNum 1001)]]"
  "payloads double_run = [JObj [(''line'', JNum 1)], JObj [(''line'', JNum 2)]]"
  "payloads silent_run = []"
  by (simp_all add: payloads_def channel_entries_def carries_payload_def opt_get_def
        single_run_def double_run_def silent_run_def sample_run_def)

lemma output_document_timeline:
  "map (\<lambda>s. (ns_name s, ns_output s)) (node_timeline output_document)
     = [(''Single'', node_output (Some single_run)),
        (''Double'', node_output (Some double_run)),
        (''Silent'', node_output (Some silent_run))]"
  by (simp add: node_timeline_def summarize_def last_run_def runs_of_def
        prototype_function_length_def by_start_def start_or_zero_def output_document_def)
     (simp add: single_run_def double_run_def silent_run_def sample_run_def)

theorem node_output_from_last_run_witness:
  "map (\<lambda>s. (ns_name s, ns_output s)) (node_timeline output_document)
     = [(''Single'', JObj [(''orderNumber'', JNum 1001)]),
        (''Double'', JArr [JObj [(''line'', JNum 1)], JObj [(''line'', JNum 2)]]),
        (''Silent'', JNull)]"
proof -
  from node_output_from_last_run [of output_document single_run]
  have 1: "node_output (Some single_run) = JObj [(''orderNumber'', JNum 1001)]"
    by (simp add: sample_payloads)
  from node_output_from_last_run [of output_document double_run]
  have 2: "node_output (Some double_run)
      = JArr [JObj [(''line'', JNum 1)], JObj [(''line'', JNum 2)]]"
    by (simp add: sample_payloads)
  from node_output_from_last_run [of output_document silent_run]
  have 3: "node_output (Some silent_run) = JNull"
    by (simp add: sample_payloads)
  from output_document_timeline 1 2 3 show ?thesis by (simp only:)
qed

section \<open>Properties of the custom-value extractor\<close>

lemma first_defined_append:
  "first_defined (xs @ ys) = (case first_defined xs of Some v \<Rightarrow> Some v | None \<Rightarrow> first_defined ys)"
  by (induction xs) (simp_all add: first_defined_def)

lemma scan_items_first:
  "scan_items key items = first_defined (map (payload_value key) items)"
  by (induction items) (simp_all add: first_defined_def payload_value_def)

lemma scan_outputs_first:
  "list_all wf_output outs \<Longrightarrow>
   scan_outputs key outs =
     Inr (first_defined (concat (map (\<lambda>out. map (payload_value key) (elems out)) outs)))"
proof (induction outs)
  case Nil
  show ?case by (simp add: first_defined_def)
next
  case (Cons out outs)
  then have ih: "scan_outputs key outs =
     Inr (first_defined (concat (map (\<lambda>out. map (payload_value key) (elems out)) outs)))"
    by simp
  from Cons.prems have "wf_output out" by simp
  then show ?case
  proof (cases out)
    case (JArr items)
    then show ?thesis
      by (simp add: ih first_defined_append scan_items_first split: option.splits)
  qed (simp_all add: wf_output_def ih first_defined_def)
qed

lemma scan_runs_first:
  "list_all wf_run runs \<Longrightarrow>
   scan_runs key runs = Inr (first_defined (concat (map (run_payload_values key) runs)))"
proof (induction runs)
  case Nil
  show ?case by (simp add: first_defined_def)
next
  case (Cons run runs)
  then have ih: "scan_runs key runs =
      Inr (first_defined (concat (map (run_payload_values key) runs)))"
    by simp
  from Cons.prems have wf: "wf_run run" by simp
  show ?case
  proof (cases "truthy (run_outputs run)")
    case False
    then have "elems (run_outputs run) = []"
      by (cases "run_outputs run") simp_all
    then have "run_payload_values key run = []"
      by (simp add: run_payload_values_def)
    with False show ?thesis
      by (simp add: ih run_outputs_def [symmetric])
  next
    case True
    with wf obtain outs where o: "run_outputs run = JArr outs"
      by (cases "run_outputs run") (simp_all add: wf_run_def)
    with wf have "list_all wf_output outs" by (simp add: wf_run_def)
    then have "scan_outputs key outs =
        Inr (first_defined (concat (map (\<lambda>out. map (payload_value key) (elems out)) outs)))"
      by (rule scan_outputs_first)
    moreover from o have "run_payload_values key run =
        concat (map (\<lambda>out. map (payload_value key) (elems out)) outs)"
      by (simp add: run_payload_values_def)
    ultimately show ?thesis using o
      by (simp add: ih run_outputs_def [symmetric] first_defined_append
               split: option.splits)
  qed
qed

lemma scan_nodes_first:
  "list_all (\<lambda>kv. wf_runs (snd kv)) kvs' \<Longrightarrow>
   list_all (\<lambda>kv. map_of kvs (fst kv) = Some (snd kv)) kvs' \<Longrightarrow>
   scan_nodes key (JObj kvs) (map fst kvs') =
     Inr (first_defined
       (concat (map (\<lambda>kv. concat (map (run_payload_values key) (elems (snd kv)))) kvs')))"
proof (induction kvs')
  case Nil
  show ?case by (simp add: first_defined_def)
next
  case (Cons kv rest)
  then have ih: "scan_nodes key (JObj kvs) (map fst rest) =
     Inr (first_defined
       (concat (map (\<lambda>kv. concat (map (run_payload_values key) (elems (snd kv)))) rest)))"
    by simp
  from Cons.prems have look: "map_of kvs (fst kv) = Some (snd kv)" by simp
  from Cons.prems have "wf_runs (snd kv)" by simp
  then obtain runs where r: "snd kv = JArr runs" and wf: "list_all wf_run runs"
    by (cases "snd kv") (simp_all add: wf_runs_def)
  from wf have "scan_runs key runs =
      Inr (first_defined (concat (map (run_payload_values key) runs)))"
    by (rule scan_runs_first)
  with look r show ?case
    by (simp add: ih first_defined_append split: option.splits)
qed

lemma map_of_distinct_all:
  "distinct (map fst kvs) \<Longrightarrow> list_all (\<lambda>kv. map_of kvs (fst kv) = Some (snd kv)) kvs"
  by (simp add: list_all_iff)

lemma scan_nodes_wf:
  assumes "wf_runData runData"
  shows "\<exists>names. object_keys runData = Inr names \<and>
     scan_nodes key runData names = Inr (first_defined (all_payload_values key runData))"
proof (cases runData)
  case (JObj kvs)
  with assms have d: "distinct (map fst kvs)" and w: "list_all (\<lambda>kv. wf_runs (snd kv)) kvs"
    by simp_all
  from scan_nodes_first [OF w map_of_distinct_all [OF d]] JObj show ?thesis by simp
qed (use assms in simp_all)

text \<open>
  Claim C9. For every execution document and key, the extractor returns the value of the
  top-level custom-data map when the key is present there, otherwise the value of the
  annotation's custom-data map when present there, otherwise (on a well-formed result
  map) the first defined payload value in the order of the node map, its runs, their
  outputs and their items, and \<open>null\<close> when there is none or no result map at all.
  Whenever the body raises, because the document deviates from that structure, the
  result is \<open>null\<close>: the function itself returns a value on every document.
\<close>

theorem extractFromExecutionData_lookup_order:
  "(customData_value e k \<noteq> JUndefined \<longrightarrow>
      extractFromExecutionData e k = customData_value e k)
   \<and> (customData_value e k = JUndefined \<and> annotation_value e k \<noteq> JUndefined \<longrightarrow>
      extractFromExecutionData e k = annotation_value e k)
   \<and> (customData_value e k = JUndefined \<and> annotation_value e k = JUndefined
        \<and> wf_runData (runData_of e) \<longrightarrow>
      extractFromExecutionData e k =
        (case first_defined (all_payload_values k (runData_of e)) of
           Some v \<Rightarrow> v | None \<Rightarrow> JNull))
   \<and> (customData_value e k = JUndefined \<and> annotation_value e k = JUndefined
        \<and> \<not> truthy (runData_of e) \<longrightarrow>
      extractFromExecutionData e k = JNull)
   \<and> (extract_try e k = Inl err \<longrightarrow> extractFromExecutionData e k = JNull)"
proof (intro conjI impI)
  assume "customData_value e k \<noteq> JUndefined"
  then show "extractFromExecutionData e k = customData_value e k"
    by (simp add: extractFromExecutionData_def extract_try_def customData_value_def)
next
  assume "customData_value e k = JUndefined \<and> annotation_value e k \<noteq> JUndefined"
  then show "extractFromExecutionData e k = annotation_value e k"
    by (simp add: extractFromExecutionData_def extract_try_def customData_value_def
          annotation_value_def)
next
  assume a: "customData_value e k = JUndefined \<and> annotation_value e k = JUndefined
        \<and> wf_runData (runData_of e)"
  then have t: "truthy (runData_of e)"
    by (cases "runData_of e") simp_all
  from a obtain names where n: "object_keys (runData_of e) = Inr names"
    and s: "scan_nodes k (runData_of e) names =
              Inr (first_defined (all_payload_values k (runData_of e)))"
    using scan_nodes_wf by blast
  have "extract_try e k =
      Inr (case first_defined (all_payload_values k (runData_of e)) of
             Some v \<Rightarrow> v | None \<Rightarrow> JNull)"
    using a t n s
    by (simp add: extract_try_def customData_value_def annotation_value_def runData_of_def
          split: option.splits)
  then show "extractFromExecutionData e k =
        (case first_defined (all_payload_values k (runData_of e)) of
           Some v \<Rightarrow> v | None \<Rightarrow> JNull)"
    by (simp add: extractFromExecutionData_def)
next
  assume "customData_value e k = JUndefined \<and> annotation_value e k = JUndefined
        \<and> \<not> truthy (runData_of e)"
  then show "extractFromExecutionData e k = JNull"
    by (simp add: extractFromExecutionData_def extract_try_def customData_value_def
          annotation_value_def runData_of_def)
next
  assume "extract_try e k = Inl err"
  then show "extractFromExecutionData e k = JNull"
    by (simp add: extractFromExecutionData_def)
qed

theorem extractFromExecutionData_lookup_order_witness:
  "extractFromExecutionData doc_top ''orderNumber'' = JStr ''1001''
   \<and> extractFromExecutionData doc_annotation ''orderNumber'' = JStr ''1002''
   \<and> extractFromExecutionData doc_scan ''orderNumber'' = JNum 1003
   \<and> extractFromExecutionData (JObj []) ''orderNumber'' = JNull
   \<and> extract_try doc_deviant ''orderNumber'' = Inl TypeError
   \<and> extractFromExecutionData doc_deviant ''orderNumber'' = JNull"
proof -
  have 1: "customData_value doc_top ''orderNumber'' = JStr ''1001''"
    by (simp add: customData_value_def doc_top_def opt_get_def)
  have 2: "customData_value doc_annotation ''orderNumber'' = JUndefined"
          "annotation_value doc_annotation ''orderNumber'' = JStr ''1002''"
    by (simp_all add: customData_value_def annotation_value_def doc_annotation_def opt_get_def)
  have 3: "customData_value doc_scan ''orderNumber'' = JUndefined"
          "annotation_value doc_scan ''orderNumber'' = JUndefined"
    by (simp_all add: customData_value_def annotation_value_def doc_scan_def opt_get_def)
  have wf3: "wf_runData (runData_of doc_scan)"
    by (simp add: runData_of_def doc_scan_def opt_get_def wf_runs_def wf_run_def
          run_outputs_def wf_output_def)
  have fd3: "first_defined (all_payload_values ''orderNumber'' (runData_of doc_scan))
              = Some (JNum 1003)"
    by (simp add: runData_of_def doc_scan_def opt_get_def run_payload_values_def
          run_outputs_def payload_value_def first_defined_def)
  have 4: "customData_value (JObj []) ''orderNumber'' = JUndefined"
          "annotation_value (JObj []) ''orderNumber'' = JUndefined"
          "\<not> truthy (runData_of (JObj []))"
    by (simp_all add: customData_value_def annotation_value_def runData_of_def opt_get_def)
  have 5: "extract_try doc_deviant ''orderNumber'' = Inl TypeError"
    by (simp add: extract_try_def doc_deviant_def opt_get_def)
  from extractFromExecutionData_lookup_order [of doc_top "''orderNumber''"] 1
  have "extractFromExecutionData doc_top ''orderNumber'' = JStr ''1001''" by simp
  moreover from extractFromExecutionData_lookup_order [of doc_annotation "''orderNumber''"] 2
  have "extractFromExecutionData doc_annotation ''orderNumber'' = JStr ''1002''" by simp
  moreover from extractFromExecutionData_lookup_order [of doc_scan "''orderNumber''"] 3 wf3 fd3
  have "extractFromExecutionData doc_scan ''orderNumber'' = JNum 1003" by simp
  moreover from extractFromExecutionData_lookup_order [of "JObj []" "''orderNumber''"] 4
  have "extractFromExecutionData (JObj []) ''orderNumber'' = JNull" by simp
  moreover from extractFromExecutionData_lookup_order
      [of doc_deviant "''orderNumber''" TypeError] 5
  have "extractFromExecutionData doc_deviant ''orderNumber'' = JNull" by simp
  ultimately show ?thesis using 5 by simp
qed

end
